theory Spec2Isabelle
  imports Complex_Main
begin

section \<open>The ledger of \<^verbatim>\<open>bank1.cpp\<close>\<close>

text \<open>
  Conventions of the embedding.
  \<^item> A \<^verbatim>\<open>double\<close> is a value of \<open>double\<close> (below): IEEE 754 binary64 with
    round-to-nearest, ties-to-even, every operation rounded on its own (no extended
    precision and no fused multiply-add).
  \<^item> A member function that mutates its object takes the object and returns the new one,
    after its return value and the lines it writes to \<^verbatim>\<open>cout\<close>.
  \<^item> A line written to \<^verbatim>\<open>cout\<close> is a value of \<open>msg\<close>: one constructor per output
    statement of the source, carrying the values streamed into it (before formatting).
  \<^item> \<^verbatim>\<open>getCurrentDateTime()\<close> reads the wall clock; every function that records a
    transaction takes the string the clock returns at that moment as its first argument.
  \<^item> A \<^verbatim>\<open>throw\<close> is the left injection of a sum.
  \<^item> A member \<^verbatim>\<open>_x\<close> of the source is the field \<open>x\<close> (with a prefix where two classes
    share the name).
\<close>

subsection \<open>Doubles\<close>

text \<open>
  A \<^verbatim>\<open>double\<close> is a finite number, an infinity or NaN. The two zeros are one value: they
  compare equal and the source neither divides nor prints through this model. A finite
  double is a real \<open>m * 2^k\<close> with \<open>\<bar>m\<bar> < 2^53\<close> and \<open>-1074 \<le> k \<le> 971\<close>; the result of an
  operation is the exact result rounded to the nearest such number, to the one with the
  even \<open>m\<close> when two are equally near, and to an infinity from \<open>2^1024\<close> on.
\<close>

datatype double = Fin real | PInf | NInf | NaN

function bit_length :: "nat \<Rightarrow> nat" where
  "bit_length n = (if n = 0 then 0 else Suc (bit_length (n div 2)))"
  by pat_completeness auto
termination
  by (relation "measure id") auto

declare bit_length.simps [simp del]

text \<open>The binary exponent of a real other than 0: the \<open>e\<close> with \<open>2^e \<le> \<bar>x\<bar> < 2^(e+1)\<close>.\<close>

definition expo :: "real \<Rightarrow> int" where
  "expo x =
     (if 1 \<le> \<bar>x\<bar> then int (bit_length (nat \<lfloor>\<bar>x\<bar>\<rfloor>)) - 1
      else - int (bit_length (nat (\<lceil>1 / \<bar>x\<bar>\<rceil> - 1))))"

definition pow2 :: "int \<Rightarrow> real" where
  "pow2 k = (if 0 \<le> k then 2 ^ nat k else 1 / 2 ^ nat (- k))"

definition round_even :: "real \<Rightarrow> int" where
  "round_even q =
     (let f = \<lfloor>q\<rfloor> in
      if q - of_int f < 1 / 2 then f
      else if 1 / 2 < q - of_int f then f + 1
      else if even f then f else f + 1)"

text \<open>
  Rounding a real to a double. The spacing of the doubles around \<open>x\<close> is
  \<open>2^(e - 52)\<close>, with the exponent \<open>e\<close> of \<open>x\<close> but not less than \<open>-1022\<close> (below that
  the doubles are subnormal and equally spaced).
\<close>

definition rnd :: "real \<Rightarrow> double" where
  "rnd x =
     (if x = 0 then Fin 0
      else
        let u = pow2 (max (expo x) (- 1022) - 52);
            r = of_int (round_even (x / u)) * u
        in if 2 ^ 1024 \<le> r then PInf else if r \<le> - (2 ^ 1024) then NInf else Fin r)"

text \<open>A decimal literal of the source, such as \<^verbatim>\<open>0.015\<close>, is the double nearest to it.\<close>

definition dbl :: "real \<Rightarrow> double" where
  "dbl x = rnd x"

fun dneg :: "double \<Rightarrow> double" where
  "dneg (Fin x) = Fin (- x)"
| "dneg PInf = NInf"
| "dneg NInf = PInf"
| "dneg NaN = NaN"

fun dadd :: "double \<Rightarrow> double \<Rightarrow> double" where
  "dadd NaN y = NaN"
| "dadd x NaN = NaN"
| "dadd PInf NInf = NaN"
| "dadd NInf PInf = NaN"
| "dadd PInf y = PInf"
| "dadd x PInf = PInf"
| "dadd NInf y = NInf"
| "dadd x NInf = NInf"
| "dadd (Fin x) (Fin y) = rnd (x + y)"

definition dsub :: "double \<Rightarrow> double \<Rightarrow> double" where
  "dsub x y = dadd x (dneg y)"

fun dmul :: "double \<Rightarrow> double \<Rightarrow> double" where
  "dmul NaN y = NaN"
| "dmul x NaN = NaN"
| "dmul (Fin x) (Fin y) = rnd (x * y)"
| "dmul (Fin x) PInf = (if x = 0 then NaN else if 0 < x then PInf else NInf)"
| "dmul (Fin x) NInf = (if x = 0 then NaN else if 0 < x then NInf else PInf)"
| "dmul PInf (Fin y) = (if y = 0 then NaN else if 0 < y then PInf else NInf)"
| "dmul NInf (Fin y) = (if y = 0 then NaN else if 0 < y then NInf else PInf)"
| "dmul PInf PInf = PInf"
| "dmul PInf NInf = NInf"
| "dmul NInf PInf = NInf"
| "dmul NInf NInf = PInf"

text \<open>The comparisons \<^verbatim>\<open><\<close> and \<^verbatim>\<open><=\<close>: false as soon as one side is NaN.\<close>

fun dlt :: "double \<Rightarrow> double \<Rightarrow> bool" where
  "dlt NaN y = False"
| "dlt x NaN = False"
| "dlt (Fin x) (Fin y) = (x < y)"
| "dlt x NInf = False"
| "dlt PInf y = False"
| "dlt NInf y = True"
| "dlt x PInf = True"

fun dle :: "double \<Rightarrow> double \<Rightarrow> bool" where
  "dle NaN y = False"
| "dle x NaN = False"
| "dle (Fin x) (Fin y) = (x \<le> y)"
| "dle NInf y = True"
| "dle x PInf = True"
| "dle x NInf = False"
| "dle PInf y = False"

subsection \<open>Transactions\<close>

record Transaction =
  txn_type :: string
  amount :: double
  date :: string
  newBalance :: double

definition mkTransaction :: "string \<Rightarrow> string \<Rightarrow> double \<Rightarrow> double \<Rightarrow> Transaction" where
  "mkTransaction now ty amt nb = \<lparr>txn_type = ty, amount = amt, date = now, newBalance = nb\<rparr>"

subsection \<open>Console output and exceptions\<close>

datatype msg =
    DepositNotPositive
  | Deposited double string double
  | WithdrawalNotPositive
  | InsufficientFunds double double
  | Withdrew double string double
  | InterestAppliedTo double string double
  | WithdrawalDenied double double double
  | WithdrewChecking double string double
  | AccountAdded string string
  | CustomerAdded string string
  | CustomerNotFound string
  | InvalidAccountType
  | AccountCreated string string string string
  | SourceNotFound string
  | DestinationNotFound string
  | SameAccount
  | TransferNotPositive
  | Transferred double string string
  | TransferFailed

datatype exn = invalid_argument string

subsection \<open>Accounts\<close>

text \<open>
  The three classes \<^verbatim>\<open>Account\<close>, \<^verbatim>\<open>SavingsAccount\<close> and \<^verbatim>\<open>CheckingAccount\<close>:
  the dynamic type of an object, with the member the derived class adds.
\<close>

datatype dyn_class = Base | Savings double | Checking double

record Account =
  accountNumber :: string
  ownerName :: string
  balance :: double
  transactions :: "Transaction list"
  cls :: dyn_class

definition Account_ctor :: "string \<Rightarrow> string \<Rightarrow> double \<Rightarrow> exn + Account" where
  "Account_ctor accNo owner initialBalance =
     (if accNo = [] then Inl (invalid_argument ''Account number cannot be empty.'')
      else if owner = [] then Inl (invalid_argument ''Owner name cannot be empty.'')
      else if dlt initialBalance (Fin 0) then Inl (invalid_argument ''Initial balance cannot be negative.'')
      else Inr \<lparr>accountNumber = accNo, ownerName = owner, balance = initialBalance,
                transactions = [], cls = Base\<rparr>)"

definition SavingsAccount_ctor :: "string \<Rightarrow> string \<Rightarrow> double \<Rightarrow> double \<Rightarrow> exn + Account" where
  "SavingsAccount_ctor accNo owner initialBalance interestRate =
     (case Account_ctor accNo owner initialBalance of
        Inl e \<Rightarrow> Inl e
      | Inr a \<Rightarrow>
          if dlt interestRate (Fin 0) \<or> dlt (Fin 1) interestRate
          then Inl (invalid_argument
                 ''Interest rate must be between 0 and 1 (e.g., 0.01 for 1%).'')
          else Inr (a\<lparr>cls := Savings interestRate\<rparr>))"

definition CheckingAccount_ctor :: "string \<Rightarrow> string \<Rightarrow> double \<Rightarrow> double \<Rightarrow> exn + Account" where
  "CheckingAccount_ctor accNo owner initialBalance overdraftLimit =
     (case Account_ctor accNo owner initialBalance of
        Inl e \<Rightarrow> Inl e
      | Inr a \<Rightarrow>
          if dlt overdraftLimit (Fin 0)
          then Inl (invalid_argument ''Overdraft limit cannot be negative.'')
          else Inr (a\<lparr>cls := Checking overdraftLimit\<rparr>))"

definition deposit :: "string \<Rightarrow> double \<Rightarrow> Account \<Rightarrow> bool \<times> msg list \<times> Account" where
  "deposit now amt a =
     (if dle amt (Fin 0) then (False, [DepositNotPositive], a)
      else
        let b = dadd (balance a) amt;
            a' = a\<lparr>balance := b,
                   transactions := transactions a @ [mkTransaction now ''Deposit'' amt b]\<rparr>
        in (True, [Deposited amt (accountNumber a) b], a'))"

definition Account_withdraw :: "string \<Rightarrow> double \<Rightarrow> Account \<Rightarrow> bool \<times> msg list \<times> Account" where
  "Account_withdraw now amt a =
     (if dle amt (Fin 0) then (False, [WithdrawalNotPositive], a)
      else if dlt (balance a) amt then (False, [InsufficientFunds (balance a) amt], a)
      else
        let b = dsub (balance a) amt;
            a' = a\<lparr>balance := b,
                   transactions := transactions a @ [mkTransaction now ''Withdrawal'' amt b]\<rparr>
        in (True, [Withdrew amt (accountNumber a) b], a'))"

definition CheckingAccount_withdraw ::
  "double \<Rightarrow> string \<Rightarrow> double \<Rightarrow> Account \<Rightarrow> bool \<times> msg list \<times> Account" where
  "CheckingAccount_withdraw overdraftLimit now amt a =
     (if dle amt (Fin 0) then (False, [WithdrawalNotPositive], a)
      else if dlt (dadd (balance a) overdraftLimit) amt
      then (False, [WithdrawalDenied overdraftLimit (balance a) amt], a)
      else
        let b = dsub (balance a) amt;
            a' = a\<lparr>balance := b,
                   transactions := transactions a @ [mkTransaction now ''Withdrawal'' amt b]\<rparr>
        in (True, [WithdrewChecking amt (accountNumber a) b], a'))"

text \<open>The virtual call \<^verbatim>\<open>account->withdraw(amount)\<close>: the override of the dynamic class.\<close>

definition withdraw :: "string \<Rightarrow> double \<Rightarrow> Account \<Rightarrow> bool \<times> msg list \<times> Account" where
  "withdraw now amt a =
     (case cls a of
        Checking overdraftLimit \<Rightarrow> CheckingAccount_withdraw overdraftLimit now amt a
      | _ \<Rightarrow> Account_withdraw now amt a)"

text \<open>
  \<^verbatim>\<open>SavingsAccount::applyInterest\<close> is a member of the savings class only: on an object
  of another class there is no such call, which is \<open>None\<close>.
\<close>

definition applyInterest :: "string \<Rightarrow> Account \<Rightarrow> (msg list \<times> Account) option" where
  "applyInterest now a =
     (case cls a of
        Savings interestRate \<Rightarrow>
          let interestAmount = dmul (balance a) interestRate;
              b = dadd (balance a) interestAmount;
              a' = a\<lparr>balance := b,
                     transactions := transactions a
                        @ [mkTransaction now ''Interest Applied'' interestAmount b]\<rparr>
          in Some ([InterestAppliedTo interestAmount (accountNumber a) b], a')
      | _ \<Rightarrow> None)"

definition getBalance :: "Account \<Rightarrow> double" where
  "getBalance a = balance a"

definition getTransactionHistory :: "Account \<Rightarrow> Transaction list" where
  "getTransactionHistory a = transactions a"

subsection \<open>Identifiers\<close>

text \<open>
  \<^verbatim>\<open>std::to_string\<close> on a \<^verbatim>\<open>long long\<close>: the decimal digits, after a minus sign for a
  negative number. The two counters of the bank are \<^verbatim>\<open>long long\<close>; they are integers here,
  and the post-increment is \<open>+ 1\<close>. In the source the increment is undefined at
  \<open>2^63 - 1\<close>, more than \<open>9 * 10^18\<close> calls after the initial values.
\<close>

definition digit_char :: "nat \<Rightarrow> char" where
  "digit_char d = ''0123456789'' ! d"

function digits :: "nat \<Rightarrow> string" where
  "digits n = (if n < 10 then [digit_char n] else digits (n div 10) @ [digit_char (n mod 10)])"
  by pat_completeness auto
termination
  by (relation "measure id") auto

declare digits.simps [simp del]

definition to_string :: "int \<Rightarrow> string" where
  "to_string i = (if i < 0 then CHR ''-'' # digits (nat (- i)) else digits (nat i))"

subsection \<open>Customers\<close>

text \<open>
  A \<^verbatim>\<open>shared_ptr<Account>\<close> is \<open>None\<close> (the null pointer) or \<open>Some p\<close>, with \<open>p\<close>
  the address of an account object in the store of the bank (below).
\<close>

type_synonym ref = nat

record Customer =
  customerId :: string
  cust_name :: string
  cust_address :: string
  cust_accounts :: "string \<rightharpoonup> ref"

definition Customer_ctor :: "string \<Rightarrow> string \<Rightarrow> string \<Rightarrow> exn + Customer" where
  "Customer_ctor cid nm addr =
     (if cid = [] then Inl (invalid_argument ''Customer ID cannot be empty.'')
      else if nm = [] then Inl (invalid_argument ''Customer name cannot be empty.'')
      else if addr = [] then Inl (invalid_argument ''Address cannot be empty.'')
      else Inr \<lparr>customerId = cid, cust_name = nm, cust_address = addr,
                cust_accounts = Map.empty\<rparr>)"

definition addAccount ::
  "(ref \<Rightarrow> Account) \<Rightarrow> ref option \<Rightarrow> Customer \<Rightarrow> exn + (msg list \<times> Customer)" where
  "addAccount objs account c =
     (case account of
        None \<Rightarrow> Inl (invalid_argument ''Account pointer cannot be null.'')
      | Some p \<Rightarrow>
          Inr ([AccountAdded (accountNumber (objs p)) (cust_name c)],
               c\<lparr>cust_accounts := (cust_accounts c)(accountNumber (objs p) \<mapsto> p)\<rparr>))"

definition Customer_getAccount :: "Customer \<Rightarrow> string \<Rightarrow> ref option" where
  "Customer_getAccount c accNo = cust_accounts c accNo"

subsection \<open>The bank\<close>

text \<open>
  Account objects are shared between the map of the bank and the map of their customer, so
  they live in a store: \<open>store\<close> gives the object at an address and \<open>next_ref\<close> is the
  first address \<^verbatim>\<open>make_shared\<close> has not handed out. A customer object is reached through
  the map of the bank only (the pointer \<^verbatim>\<open>addCustomer\<close> returns is to the same object),
  so it is kept in that map.
\<close>

record Bank =
  bank_name :: string
  customers :: "string \<rightharpoonup> Customer"
  accounts :: "string \<rightharpoonup> ref"
  nextCustomerId :: int
  nextAccountNumber :: int
  store :: "ref \<Rightarrow> Account"
  next_ref :: ref

definition null_Account :: Account where
  "null_Account = \<lparr>accountNumber = [], ownerName = [], balance = Fin 0, transactions = [],
                    cls = Base\<rparr>"

definition Bank_ctor :: "string \<Rightarrow> Bank" where
  "Bank_ctor nm = \<lparr>bank_name = nm, customers = Map.empty, accounts = Map.empty,
                    nextCustomerId = 1000, nextAccountNumber = 100000,
                    store = (\<lambda>_. null_Account), next_ref = 0\<rparr>"

definition addCustomer :: "string \<Rightarrow> string \<Rightarrow> Bank \<Rightarrow> (exn + string) \<times> msg list \<times> Bank" where
  "addCustomer nm addr b =
     (let cid = ''C'' @ to_string (nextCustomerId b);
          b1 = b\<lparr>nextCustomerId := nextCustomerId b + 1\<rparr>
      in case Customer_ctor cid nm addr of
           Inl e \<Rightarrow> (Inl e, [], b1)
         | Inr customer \<Rightarrow>
             (Inr cid, [CustomerAdded nm cid],
              b1\<lparr>customers := (customers b1)(cid \<mapsto> customer)\<rparr>))"

definition getCustomer :: "Bank \<Rightarrow> string \<Rightarrow> Customer option" where
  "getCustomer b cid = customers b cid"

definition getAccount :: "Bank \<Rightarrow> string \<Rightarrow> ref option" where
  "getAccount b accNo = accounts b accNo"

text \<open>
  \<^verbatim>\<open>make_shared\<close> of a constructed account, then lines 342 to 346 of \<^verbatim>\<open>createAccount\<close>:
  the object is attached to the customer found under \<open>cid\<close> (whose object is updated in
  place, that is under the same key) and entered in the map of the bank.
\<close>

definition register_account ::
  "string \<Rightarrow> Customer \<Rightarrow> string \<Rightarrow> string \<Rightarrow> Account \<Rightarrow> Bank
     \<Rightarrow> (exn + ref option) \<times> msg list \<times> Bank" where
  "register_account cid customer accountType accNo a b =
     (let p = next_ref b;
          b1 = b\<lparr>store := (store b)(p := a), next_ref := Suc p\<rparr>
      in case addAccount (store b1) (Some p) customer of
           Inl e \<Rightarrow> (Inl e, [], b1)
         | Inr (out, customer') \<Rightarrow>
             (Inr (Some p),
              out @ [AccountCreated accountType (cust_name customer') cid accNo],
              b1\<lparr>customers := (customers b1)(cid \<mapsto> customer'),
                 accounts := (accounts b1)(accNo \<mapsto> p)\<rparr>))"

definition createAccount ::
  "string \<Rightarrow> string \<Rightarrow> double \<Rightarrow> double \<Rightarrow> double \<Rightarrow> Bank \<Rightarrow> (exn + ref option) \<times> msg list \<times> Bank" where
  "createAccount cid accountType initialBalance interestRate overdraftLimit b =
     (case getCustomer b cid of
        None \<Rightarrow> (Inr None, [CustomerNotFound cid], b)
      | Some customer \<Rightarrow>
          let accNo = ''ACC'' @ to_string (nextAccountNumber b);
              b1 = b\<lparr>nextAccountNumber := nextAccountNumber b + 1\<rparr>
          in if accountType = ''savings'' then
               (case SavingsAccount_ctor accNo (cust_name customer) initialBalance interestRate of
                  Inl e \<Rightarrow> (Inl e, [], b1)
                | Inr a \<Rightarrow> register_account cid customer accountType accNo a b1)
             else if accountType = ''checking'' then
               (case CheckingAccount_ctor accNo (cust_name customer) initialBalance
                       overdraftLimit of
                  Inl e \<Rightarrow> (Inl e, [], b1)
                | Inr a \<Rightarrow> register_account cid customer accountType accNo a b1)
             else (Inr None, [InvalidAccountType], b1))"

definition transferFunds ::
  "string \<Rightarrow> string \<Rightarrow> string \<Rightarrow> string \<Rightarrow> double \<Rightarrow> Bank \<Rightarrow> bool \<times> msg list \<times> Bank" where
  "transferFunds now1 now2 fromAccountNum toAccountNum amt b =
     (case getAccount b fromAccountNum of
        None \<Rightarrow> (False, [SourceNotFound fromAccountNum], b)
      | Some fromAccount \<Rightarrow>
          (case getAccount b toAccountNum of
             None \<Rightarrow> (False, [DestinationNotFound toAccountNum], b)
           | Some toAccount \<Rightarrow>
               if fromAccountNum = toAccountNum then (False, [SameAccount], b)
               else if dle amt (Fin 0) then (False, [TransferNotPositive], b)
               else
                 (case withdraw now1 amt (store b fromAccount) of
                    (True, out1, a1) \<Rightarrow>
                      let b1 = b\<lparr>store := (store b)(fromAccount := a1)\<rparr>;
                          (r2, out2, a2) = deposit now2 amt (store b1 toAccount);
                          b2 = b1\<lparr>store := (store b1)(toAccount := a2)\<rparr>
                      in (True,
                          out1 @ out2 @ [Transferred amt fromAccountNum toAccountNum], b2)
                  | (False, out1, a1) \<Rightarrow>
                      (False, out1 @ [TransferFailed],
                       b\<lparr>store := (store b)(fromAccount := a1)\<rparr>))))"

subsection \<open>Sequences of calls\<close>

text \<open>
  A caller of one account object: any finite sequence of \<^verbatim>\<open>deposit\<close>, \<^verbatim>\<open>withdraw\<close> and
  \<^verbatim>\<open>applyInterest\<close> calls, each with the clock reading of its transaction. A sequence
  that calls \<^verbatim>\<open>applyInterest\<close> on an object that is not a savings account is not a
  program (\<open>None\<close>).
\<close>

datatype account_op = OpDeposit string double | OpWithdraw string double | OpApplyInterest string

fun account_step :: "account_op \<Rightarrow> Account \<Rightarrow> Account option" where
  "account_step (OpDeposit now amt) a = Some (snd (snd (deposit now amt a)))"
| "account_step (OpWithdraw now amt) a = Some (snd (snd (withdraw now amt a)))"
| "account_step (OpApplyInterest now) a = map_option snd (applyInterest now a)"

fun account_run :: "account_op list \<Rightarrow> Account \<Rightarrow> Account option" where
  "account_run [] a = Some a"
| "account_run (x # xs) a =
     (case account_step x a of None \<Rightarrow> None | Some a' \<Rightarrow> account_run xs a')"

text \<open>
  A caller of the bank, as \<^verbatim>\<open>main\<close> is: the member functions of \<^verbatim>\<open>Bank\<close>, and the
  member functions of an account called through a pointer \<open>p\<close> that the bank has handed
  out (so \<open>p\<close> is the address of an allocated object). A call that throws leaves the state
  it had reached, and the sequence goes on from there (the caller caught the exception).
  \<^verbatim>\<open>Customer::addAccount\<close> is public as well; a caller that attaches accounts to a customer
  itself, past \<^verbatim>\<open>createAccount\<close>, is not among these sequences.
\<close>

datatype command =
    AddCustomer string string
  | CreateAccount string string double double double
  | Deposit ref string double
  | Withdraw ref string double
  | ApplyInterest ref string
  | TransferFunds string string string string double

fun exec :: "command \<Rightarrow> Bank \<Rightarrow> Bank option" where
  "exec (AddCustomer nm addr) b = Some (snd (snd (addCustomer nm addr b)))"
| "exec (CreateAccount cid accountType initialBalance interestRate overdraftLimit) b =
     Some (snd (snd (createAccount cid accountType initialBalance interestRate overdraftLimit b)))"
| "exec (Deposit p now amt) b =
     (if p < next_ref b
      then Some (b\<lparr>store := (store b)(p := snd (snd (deposit now amt (store b p))))\<rparr>)
      else None)"
| "exec (Withdraw p now amt) b =
     (if p < next_ref b
      then Some (b\<lparr>store := (store b)(p := snd (snd (withdraw now amt (store b p))))\<rparr>)
      else None)"
| "exec (ApplyInterest p now) b =
     (if p < next_ref b
      then (case applyInterest now (store b p) of
              None \<Rightarrow> None
            | Some (out, a') \<Rightarrow> Some (b\<lparr>store := (store b)(p := a')\<rparr>))
      else None)"
| "exec (TransferFunds now1 now2 fromAccountNum toAccountNum amt) b =
     Some (snd (snd (transferFunds now1 now2 fromAccountNum toAccountNum amt b)))"

fun run :: "command list \<Rightarrow> Bank \<Rightarrow> Bank option" where
  "run [] b = Some b"
| "run (c # cs) b = (case exec c b of None \<Rightarrow> None | Some b' \<Rightarrow> run cs b')"

definition reachable :: "Bank \<Rightarrow> bool" where
  "reachable b \<longleftrightarrow> (\<exists>nm cs. run cs (Bank_ctor nm) = Some b)"

text \<open>
  The state of \<^verbatim>\<open>main\<close> after its four \<^verbatim>\<open>createAccount\<close> calls (lines 431 to 445); the
  defaulted arguments are written out, and \<open>C1000\<close> and \<open>C1001\<close> are what
  \<^verbatim>\<open>getCustomerId\<close> returns for the two customers.
\<close>

definition main_bank :: Bank where
  "main_bank =
     (let myBank = Bank_ctor ''Global Bank Inc.'';
          myBank = snd (snd (addCustomer ''Alice Smith'' ''123 Main St, Anytown'' myBank));
          myBank = snd (snd (addCustomer ''Bob Johnson'' ''456 Oak Ave, Otherville'' myBank));
          myBank = snd (snd (createAccount ''C1000'' ''savings''
                               (dbl 1000) (dbl 0.015) (dbl 0) myBank));
          myBank = snd (snd (createAccount ''C1000'' ''checking''
                               (dbl 500) (dbl 0) (dbl 200) myBank));
          myBank = snd (snd (createAccount ''C1001'' ''savings''
                               (dbl 2500) (dbl 0.01) (dbl 0) myBank));
          myBank = snd (snd (createAccount ''C1001'' ''checking''
                               (dbl 100) (dbl 0) (dbl 500) myBank))
      in myBank)"

text \<open>
  A second bank, for amounts at which \<^verbatim>\<open>double\<close> arithmetic rounds: one customer with a
  savings account opened with 10000000000000000 and another opened with nothing.
\<close>

definition big_bank :: Bank where
  "big_bank =
     (let bank = Bank_ctor ''Big Bank'';
          bank = snd (snd (addCustomer ''Carol White'' ''789 Pine Rd, Elsewhere'' bank));
          bank = snd (snd (createAccount ''C1000'' ''savings''
                             (dbl 10000000000000000) (dbl 0.01) (dbl 0) bank));
          bank = snd (snd (createAccount ''C1000'' ''savings''
                             (dbl 0) (dbl 0.01) (dbl 0) bank))
      in bank)"

subsection \<open>The properties of the specification\<close>

text \<open>
  Replaying a history, in the words of the specification: \<open>Deposit\<close> and
  \<open>InterestApplied\<close> add their amount, \<open>Withdrawal\<close> subtracts it. The kinds are the
  strings the source stores in \<^verbatim>\<open>Transaction::type\<close>, and adding and subtracting are the
  \<^verbatim>\<open>+\<close> and \<^verbatim>\<open>-\<close> of \<^verbatim>\<open>double\<close>.
\<close>

definition applyDelta :: "double \<Rightarrow> Transaction \<Rightarrow> double" where
  "applyDelta acc t =
     (if txn_type t = ''Deposit'' \<or> txn_type t = ''Interest Applied'' then dadd acc (amount t)
      else if txn_type t = ''Withdrawal'' then dsub acc (amount t)
      else acc)"

definition replay :: "double \<Rightarrow> Transaction list \<Rightarrow> double" where
  "replay start history = foldl applyDelta start history"

text \<open>
  The withdrawal policy as the source computes it: a base or savings account permits a
  withdrawal unless \<open>balance < amount\<close>, a checking account unless
  \<open>balance + overdraftLimit < amount\<close>, where the sum is the rounded sum of two doubles.
\<close>

definition permitted :: "Account \<Rightarrow> double \<Rightarrow> bool" where
  "permitted a amt =
     (case cls a of
        Checking overdraftLimit \<Rightarrow> \<not> dlt (dadd (balance a) overdraftLimit) amt
      | _ \<Rightarrow> \<not> dlt (balance a) amt)"







text \<open>
  The invariant of the registry: a registered number resolves to an allocated object that
  carries this number (so two numbers never resolve to one object), the map of a customer
  agrees with the map of the bank, every registered number was generated from a value
  the counter has passed, and every allocated object is registered under its number.
\<close>

definition bank_wf :: "Bank \<Rightarrow> bool" where
  "bank_wf b \<longleftrightarrow>
     (\<forall>n p. accounts b n = Some p \<longrightarrow> p < next_ref b \<and> accountNumber (store b p) = n)
   \<and> (\<forall>cid c n p. customers b cid = Some c \<longrightarrow> cust_accounts c n = Some p
          \<longrightarrow> accounts b n = Some p)
   \<and> (\<forall>n p. accounts b n = Some p
          \<longrightarrow> (\<exists>k. k < nextAccountNumber b \<and> n = ''ACC'' @ to_string k))
   \<and> (\<forall>p. p < next_ref b \<longrightarrow> accounts b (accountNumber (store b p)) = Some p)"

text \<open>A number is registered when the map of the bank or of some customer has it as a key.\<close>

definition registered :: "Bank \<Rightarrow> string \<Rightarrow> bool" where
  "registered b n \<longleftrightarrow>
     accounts b n \<noteq> None \<or> (\<exists>cid c. customers b cid = Some c \<and> cust_accounts c n \<noteq> None)"

text \<open>
  A value of the account counter is skipped when the counter has passed it and the number
  generated from it is not registered.
\<close>

definition skipped :: "int \<Rightarrow> Bank \<Rightarrow> bool" where
  "skipped k b \<longleftrightarrow> k < nextAccountNumber b \<and> \<not> registered b (''ACC'' @ to_string k)"

section \<open>Doubles: evaluation and comparisons\<close>

lemmas rnd_eval = rnd_def expo_def pow2_def round_even_def bit_length.simps Let_def

lemma dbl_vals:
  "dbl 0 = Fin 0" "dbl 50 = Fin 50" "dbl 100 = Fin 100" "dbl 150 = Fin 150"
  "dbl 200 = Fin 200" "dbl 300 = Fin 300" "dbl 500 = Fin 500" "dbl 600 = Fin 600"
  "dbl 700 = Fin 700" "dbl 1000 = Fin 1000" "dbl 2500 = Fin 2500" "dbl 10000 = Fin 10000"
  "dbl 0.015 = Fin (8646911284551352 / 2 ^ 59)" "dbl 0.01 = Fin (5764607523034235 / 2 ^ 59)"
  "dbl 1.5 = Fin 1.5" "dbl 1 = Fin 1" "dbl (- 1) = Fin (- 1)" "dbl (- 5) = Fin (- 5)"
  "dbl 10000000000000000 = Fin 10000000000000000"
  "dbl 10000000000000002 = Fin 10000000000000002"
  "dbl 10000000000000004 = Fin 10000000000000004"
  by (simp_all add: dbl_def rnd_eval)

lemma dbl_vals_normal:
  "dbl (3 / 200) = Fin (1080863910568919 / 72057594037927936)"
  "dbl (1 / 100) = Fin (5764607523034235 / 576460752303423488)"
  "dbl (3 / 2) = Fin (3 / 2)"
  by (simp_all add: dbl_def rnd_eval)

lemma not_dlt_iff_dle: "x \<noteq> NaN \<Longrightarrow> y \<noteq> NaN \<Longrightarrow> \<not> dlt x y \<longleftrightarrow> dle y x"
  by (cases x; cases y) auto

lemma dlt_zero_not_dle: "dlt (Fin 0) amt \<Longrightarrow> \<not> dle amt (Fin 0)"
  by (cases amt) auto

lemma dlt_not_NaN: "dlt x y \<Longrightarrow> x \<noteq> NaN \<and> y \<noteq> NaN"
  by (cases x; cases y) auto

section \<open>Accounts: balance and history\<close>

lemma replay_snoc: "replay s (h @ [t]) = applyDelta (replay s h) t"
  by (simp add: replay_def)

lemma deposit_replay:
  "replay s (transactions a) = balance a \<Longrightarrow>
   replay s (transactions (snd (snd (deposit now amt a)))) =
     balance (snd (snd (deposit now amt a)))"
  by (simp add: deposit_def Let_def replay_snoc applyDelta_def mkTransaction_def)

lemma withdraw_replay:
  "replay s (transactions a) = balance a \<Longrightarrow>
   replay s (transactions (snd (snd (withdraw now amt a)))) =
     balance (snd (snd (withdraw now amt a)))"
  by (simp add: withdraw_def Account_withdraw_def CheckingAccount_withdraw_def Let_def
        replay_snoc applyDelta_def mkTransaction_def split: dyn_class.splits)

lemma applyInterest_replay:
  "replay s (transactions a) = balance a \<Longrightarrow> applyInterest now a = Some (out, a') \<Longrightarrow>
   replay s (transactions a') = balance a'"
  by (auto simp add: applyInterest_def Let_def replay_snoc applyDelta_def mkTransaction_def
        split: dyn_class.splits)

lemma account_step_replay:
  "replay s (transactions a) = balance a \<Longrightarrow> account_step x a = Some a' \<Longrightarrow>
   replay s (transactions a') = balance a'"
  by (cases x) (auto simp: deposit_replay withdraw_replay dest: applyInterest_replay)

lemma account_run_replay:
  "replay s (transactions a) = balance a \<Longrightarrow> account_run xs a = Some a' \<Longrightarrow>
   replay s (transactions a') = balance a'"
proof (induction xs arbitrary: a)
  case Nil
  then show ?case by simp
next
  case (Cons x xs)
  from Cons.prems(2) obtain a1 where s: "account_step x a = Some a1"
    and r: "account_run xs a1 = Some a'"
    by (auto split: option.splits)
  from account_step_replay [OF Cons.prems(1) s] have "replay s (transactions a1) = balance a1" .
  from Cons.IH [OF this r] show ?case .
qed

lemma ctor_fresh:
  assumes "Account_ctor accNo owner init = Inr a
         \<or> SavingsAccount_ctor accNo owner init rate = Inr a
         \<or> CheckingAccount_ctor accNo owner init odl = Inr a"
  shows "transactions a = [] \<and> balance a = init \<and> \<not> dlt init (Fin 0)
       \<and> accountNumber a = accNo"
  using assms
  by (auto simp: Account_ctor_def SavingsAccount_ctor_def CheckingAccount_ctor_def
      split: if_splits sum.splits)

text \<open>
  C1, as the specification states it: the balance of an account is its history replayed
  from 0. The constructor stores the initial balance and records no transaction for it, so
  the statement fails for every account opened with a positive balance: here the savings
  account of \<^verbatim>\<open>main\<close> (1000.0 at 1.5 percent) after its deposit of 200, its withdrawal
  of 50 and \<^verbatim>\<open>applyInterest\<close>; the balance is 1167.25 and the replay from 0 gives 167.25.
\<close>

theorem C1_replay_from_zero_counterexample:
  "SavingsAccount_ctor ''ACC100000'' ''Alice Smith'' (dbl 1000) (dbl 0.015) =
     Inr \<lparr>accountNumber = ''ACC100000'', ownerName = ''Alice Smith'', balance = Fin 1000,
          transactions = [], cls = Savings (dbl 0.015)\<rparr>
   \<and> map_option balance
       (account_run
          [OpDeposit ''t1'' (dbl 200), OpWithdraw ''t2'' (dbl 50), OpApplyInterest ''t3'']
          \<lparr>accountNumber = ''ACC100000'', ownerName = ''Alice Smith'', balance = Fin 1000,
           transactions = [], cls = Savings (dbl 0.015)\<rparr>) = Some (Fin 1167.25)
   \<and> map_option (replay (Fin 0) \<circ> transactions)
       (account_run
          [OpDeposit ''t1'' (dbl 200), OpWithdraw ''t2'' (dbl 50), OpApplyInterest ''t3'']
          \<lparr>accountNumber = ''ACC100000'', ownerName = ''Alice Smith'', balance = Fin 1000,
           transactions = [], cls = Savings (dbl 0.015)\<rparr>) = Some (Fin 167.25)"
proof -
  define rate where "rate = dbl 0.015"
  have rate: "rate = Fin (8646911284551352 / 2 ^ 59)"
    by (simp add: rate_def dbl_def rnd_eval)
  have c: "SavingsAccount_ctor ''ACC100000'' ''Alice Smith'' (dbl 1000) rate =
     Inr \<lparr>accountNumber = ''ACC100000'', ownerName = ''Alice Smith'', balance = Fin 1000,
          transactions = [], cls = Savings rate\<rparr>"
    by (simp add: SavingsAccount_ctor_def Account_ctor_def dbl_vals rate)
  have d: "snd (snd (deposit ''t1'' (dbl 200)
      \<lparr>accountNumber = ''ACC100000'', ownerName = ''Alice Smith'', balance = Fin 1000,
           transactions = [], cls = Savings rate\<rparr>)) =
      \<lparr>accountNumber = ''ACC100000'', ownerName = ''Alice Smith'', balance = Fin 1200,
           transactions = [mkTransaction ''t1'' ''Deposit'' (Fin 200) (Fin 1200)],
           cls = Savings rate\<rparr>"
    by (simp add: deposit_def Let_def dbl_vals rnd_eval)
  have w: "snd (snd (withdraw ''t2'' (dbl 50)
      \<lparr>accountNumber = ''ACC100000'', ownerName = ''Alice Smith'', balance = Fin 1200,
           transactions = [mkTransaction ''t1'' ''Deposit'' (Fin 200) (Fin 1200)],
           cls = Savings rate\<rparr>)) =
      \<lparr>accountNumber = ''ACC100000'', ownerName = ''Alice Smith'', balance = Fin 1150,
           transactions = [mkTransaction ''t1'' ''Deposit'' (Fin 200) (Fin 1200),
                           mkTransaction ''t2'' ''Withdrawal'' (Fin 50) (Fin 1150)],
           cls = Savings rate\<rparr>"
    by (simp add: withdraw_def Account_withdraw_def dsub_def Let_def dbl_vals rnd_eval)
  have i: "dmul (Fin 1150) rate = Fin 17.25"
    by (simp add: rate rnd_eval)
  have a: "applyInterest ''t3''
      \<lparr>accountNumber = ''ACC100000'', ownerName = ''Alice Smith'', balance = Fin 1150,
           transactions = [mkTransaction ''t1'' ''Deposit'' (Fin 200) (Fin 1200),
                           mkTransaction ''t2'' ''Withdrawal'' (Fin 50) (Fin 1150)],
           cls = Savings rate\<rparr> =
      Some ([InterestAppliedTo (Fin 17.25) ''ACC100000'' (Fin 1167.25)],
      \<lparr>accountNumber = ''ACC100000'', ownerName = ''Alice Smith'', balance = Fin 1167.25,
           transactions = [mkTransaction ''t1'' ''Deposit'' (Fin 200) (Fin 1200),
                           mkTransaction ''t2'' ''Withdrawal'' (Fin 50) (Fin 1150),
                           mkTransaction ''t3'' ''Interest Applied'' (Fin 17.25) (Fin 1167.25)],
           cls = Savings rate\<rparr>)"
    by (simp add: applyInterest_def Let_def i rnd_eval)
  let ?a3 = "\<lparr>accountNumber = ''ACC100000'', ownerName = ''Alice Smith'',
      balance = Fin 1167.25,
      transactions = [mkTransaction ''t1'' ''Deposit'' (Fin 200) (Fin 1200),
                      mkTransaction ''t2'' ''Withdrawal'' (Fin 50) (Fin 1150),
                      mkTransaction ''t3'' ''Interest Applied'' (Fin 17.25) (Fin 1167.25)],
      cls = Savings rate\<rparr>"
  have r: "account_run
          [OpDeposit ''t1'' (dbl 200), OpWithdraw ''t2'' (dbl 50), OpApplyInterest ''t3'']
          \<lparr>accountNumber = ''ACC100000'', ownerName = ''Alice Smith'', balance = Fin 1000,
           transactions = [], cls = Savings rate\<rparr> = Some ?a3"
    by (simp add: d w a)
  have bal: "balance ?a3 = Fin 1167.25"
    by simp
  have p: "replay (Fin 0) (transactions ?a3) = Fin 167.25"
    by (simp add: replay_def applyDelta_def mkTransaction_def dsub_def rnd_eval)
  show ?thesis
    unfolding rate_def [symmetric]
    by (simp only: c r option.map comp_apply bal p simp_thms)
qed

text \<open>
  C1, amended: for every account (base, savings or checking) that its constructor accepts,
  after any finite sequence of \<^verbatim>\<open>deposit\<close>, \<^verbatim>\<open>withdraw\<close> and \<^verbatim>\<open>applyInterest\<close> calls the
  balance equals the history replayed from the initial balance of the account, where
  deposits and applied interest add their amount and withdrawals subtract it.
\<close>

theorem C1_balance_replays_history_from_initial:
  assumes "Account_ctor accNo owner init = Inr a
         \<or> SavingsAccount_ctor accNo owner init rate = Inr a
         \<or> CheckingAccount_ctor accNo owner init odl = Inr a"
    and "account_run xs a = Some a'"
  shows "balance a' = replay init (transactions a')"
proof -
  from ctor_fresh [OF assms(1)] have "replay init (transactions a) = balance a"
    by (simp add: replay_def)
  from account_run_replay [OF this assms(2)] show ?thesis by simp
qed

theorem C1_balance_replays_history_from_initial_witness:
  "CheckingAccount_ctor ''ACC100001'' ''Alice Smith'' (dbl 500) (dbl 200) =
     Inr \<lparr>accountNumber = ''ACC100001'', ownerName = ''Alice Smith'', balance = Fin 500,
          transactions = [], cls = Checking (Fin 200)\<rparr>
   \<and> account_run
       [OpDeposit ''t1'' (dbl 100), OpWithdraw ''t2'' (dbl 700), OpWithdraw ''t3'' (dbl 300)]
       \<lparr>accountNumber = ''ACC100001'', ownerName = ''Alice Smith'', balance = Fin 500,
        transactions = [], cls = Checking (Fin 200)\<rparr> =
     Some \<lparr>accountNumber = ''ACC100001'', ownerName = ''Alice Smith'', balance = Fin (- 100),
           transactions =
             [mkTransaction ''t1'' ''Deposit'' (Fin 100) (Fin 600),
              mkTransaction ''t2'' ''Withdrawal'' (Fin 700) (Fin (- 100))],
           cls = Checking (Fin 200)\<rparr>
   \<and> Fin (- 100) = replay (Fin 500)
       [mkTransaction ''t1'' ''Deposit'' (Fin 100) (Fin 600),
        mkTransaction ''t2'' ''Withdrawal'' (Fin 700) (Fin (- 100))]"
proof -
  let ?a = "\<lparr>accountNumber = ''ACC100001'', ownerName = ''Alice Smith'', balance = Fin 500,
             transactions = [], cls = Checking (Fin 200)\<rparr>"
  let ?a' = "\<lparr>accountNumber = ''ACC100001'', ownerName = ''Alice Smith'', balance = Fin (- 100),
              transactions =
                [mkTransaction ''t1'' ''Deposit'' (Fin 100) (Fin 600),
                 mkTransaction ''t2'' ''Withdrawal'' (Fin 700) (Fin (- 100))],
              cls = Checking (Fin 200)\<rparr>"
  have c: "CheckingAccount_ctor ''ACC100001'' ''Alice Smith'' (dbl 500) (dbl 200) = Inr ?a"
    by (simp add: CheckingAccount_ctor_def Account_ctor_def dbl_vals)
  have r: "account_run
             [OpDeposit ''t1'' (dbl 100), OpWithdraw ''t2'' (dbl 700), OpWithdraw ''t3'' (dbl 300)]
             ?a = Some ?a'"
    by (simp add: deposit_def withdraw_def CheckingAccount_withdraw_def dsub_def Let_def
        dbl_vals rnd_eval)
  from c have d: "Account_ctor ''ACC100001'' ''Alice Smith'' (dbl 500) = Inr ?a
         \<or> SavingsAccount_ctor ''ACC100001'' ''Alice Smith'' (dbl 500) (dbl 0) = Inr ?a
         \<or> CheckingAccount_ctor ''ACC100001'' ''Alice Smith'' (dbl 500) (dbl 200) = Inr ?a"
    by blast
  from C1_balance_replays_history_from_initial [OF d r] c r show ?thesis
    by (simp add: dbl_vals)
qed

section \<open>Accounts: the withdrawal policy and rejected calls\<close>

lemma withdraw_rejected_iff:
  "\<not> fst (withdraw now amt a) \<longleftrightarrow> dle amt (Fin 0) \<or> \<not> permitted a amt"
  by (auto simp: withdraw_def Account_withdraw_def CheckingAccount_withdraw_def permitted_def
        Let_def split: dyn_class.splits)

lemma withdraw_rejected_same: "\<not> fst (withdraw now amt a) \<Longrightarrow> snd (snd (withdraw now amt a)) = a"
  by (auto simp: withdraw_def Account_withdraw_def CheckingAccount_withdraw_def Let_def
        split: dyn_class.splits if_splits)

lemma withdraw_accepted:
  "fst (withdraw now amt a) \<Longrightarrow>
   snd (snd (withdraw now amt a)) =
     a\<lparr>balance := dsub (balance a) amt,
       transactions := transactions a
          @ [mkTransaction now ''Withdrawal'' amt (dsub (balance a) amt)]\<rparr>"
  by (auto simp: withdraw_def Account_withdraw_def CheckingAccount_withdraw_def Let_def
        split: dyn_class.splits if_splits)

lemma deposit_rejected_iff: "\<not> fst (deposit now amt a) \<longleftrightarrow> dle amt (Fin 0)"
  by (simp add: deposit_def Let_def)

lemma deposit_rejected_same: "\<not> fst (deposit now amt a) \<Longrightarrow> snd (snd (deposit now amt a)) = a"
  by (simp add: deposit_def Let_def split: if_splits)

lemma deposit_accepted:
  "\<not> dle amt (Fin 0) \<Longrightarrow>
   deposit now amt a =
     (True, [Deposited amt (accountNumber a) (dadd (balance a) amt)],
      a\<lparr>balance := dadd (balance a) amt,
        transactions := transactions a
           @ [mkTransaction now ''Deposit'' amt (dadd (balance a) amt)]\<rparr>)"
  by (simp add: deposit_def Let_def)

text \<open>
  C3, as the specification states it: a checking account permits a withdrawal iff
  \<open>balance + overdraftLimit \<ge> amount\<close>, and a successful withdrawal takes exactly the
  amount from the balance. The source computes both in \<^verbatim>\<open>double\<close>. The checking account
  opened with 10000000000000002 and a limit of 1 lets 10000000000000004 be withdrawn,
  because the sum 10000000000000003 is no double and rounds to 10000000000000004; and a
  withdrawal of 1 from a base account holding 10000000000000000 succeeds and leaves the
  balance where it was, because 9999999999999999 is no double either.
\<close>

theorem C3_rounding_counterexample:
  "CheckingAccount_ctor ''ACC100001'' ''Alice Smith'' (dbl 10000000000000002) (dbl 1) =
     Inr \<lparr>accountNumber = ''ACC100001'', ownerName = ''Alice Smith'',
          balance = Fin 10000000000000002, transactions = [], cls = Checking (Fin 1)\<rparr>
   \<and> dlt (Fin 0) (dbl 10000000000000004)
   \<and> fst (withdraw ''t1'' (dbl 10000000000000004)
        \<lparr>accountNumber = ''ACC100001'', ownerName = ''Alice Smith'',
         balance = Fin 10000000000000002, transactions = [], cls = Checking (Fin 1)\<rparr>)
   \<and> \<not> (10000000000000002 + 1 \<ge> (10000000000000004 :: real))
   \<and> Account_ctor ''ACC100002'' ''Bob Johnson'' (dbl 10000000000000000) =
       Inr \<lparr>accountNumber = ''ACC100002'', ownerName = ''Bob Johnson'',
            balance = Fin 10000000000000000, transactions = [], cls = Base\<rparr>
   \<and> fst (withdraw ''t1'' (dbl 1)
        \<lparr>accountNumber = ''ACC100002'', ownerName = ''Bob Johnson'',
         balance = Fin 10000000000000000, transactions = [], cls = Base\<rparr>)
   \<and> balance (snd (snd (withdraw ''t1'' (dbl 1)
        \<lparr>accountNumber = ''ACC100002'', ownerName = ''Bob Johnson'',
         balance = Fin 10000000000000000, transactions = [], cls = Base\<rparr>)))
       = Fin 10000000000000000
   \<and> 10000000000000000 - 1 \<noteq> (10000000000000000 :: real)"
  by (simp add: CheckingAccount_ctor_def Account_ctor_def withdraw_def Account_withdraw_def
      CheckingAccount_withdraw_def dsub_def Let_def dbl_vals rnd_eval)

text \<open>
  C3, amended: for every positive amount, \<^verbatim>\<open>withdraw\<close> on a base or savings account
  succeeds iff \<open>balance \<ge> amount\<close>, and on a checking account iff \<open>s \<ge> amount\<close> for the
  \<^verbatim>\<open>double\<close> sum \<open>s\<close> of the balance and the overdraft limit, that is their sum after
  rounding. (The test of the source is \<open>not (\<dots> < amount)\<close>, which is the same except
  for a balance or a sum that is NaN.) On success the balance becomes the \<^verbatim>\<open>double\<close>
  difference of the balance and the amount, which is exactly \<open>balance - amount\<close> whenever
  that number is a double, and one \<open>Withdrawal\<close> transaction, with the amount and the
  new balance, is appended to the history.
\<close>

theorem C3_withdraw_policy:
  assumes "dlt (Fin 0) amt"
  shows "(cls a = Base \<or> cls a = Savings rate \<longrightarrow>
            (fst (withdraw now amt a) \<longleftrightarrow> \<not> dlt (balance a) amt))
       \<and> (cls a = Checking odl \<longrightarrow>
            (fst (withdraw now amt a) \<longleftrightarrow> \<not> dlt (dadd (balance a) odl) amt))
       \<and> ((cls a = Base \<or> cls a = Savings rate) \<and> balance a \<noteq> NaN \<longrightarrow>
            (fst (withdraw now amt a) \<longleftrightarrow> dle amt (balance a)))
       \<and> (cls a = Checking odl \<and> dadd (balance a) odl \<noteq> NaN \<longrightarrow>
            (fst (withdraw now amt a) \<longleftrightarrow> dle amt (dadd (balance a) odl)))
       \<and> (fst (withdraw now amt a) \<longrightarrow>
            balance (snd (snd (withdraw now amt a))) = dsub (balance a) amt
          \<and> transactions (snd (snd (withdraw now amt a))) =
              transactions a
                @ [\<lparr>txn_type = ''Withdrawal'', amount = amt, date = now,
                    newBalance = dsub (balance a) amt\<rparr>])
       \<and> (\<forall>x y. balance a = Fin x \<and> amt = Fin y \<and> rnd (x - y) = Fin (x - y) \<longrightarrow>
            dsub (balance a) amt = Fin (x - y))"
proof -
  from assms have pos: "\<not> dle amt (Fin 0)" and n: "amt \<noteq> NaN"
    using dlt_zero_not_dle dlt_not_NaN by blast+
  from pos have p: "fst (withdraw now amt a) \<longleftrightarrow> permitted a amt"
    using withdraw_rejected_iff [of now amt a] by blast
  have s: "fst (withdraw now amt a) \<longrightarrow>
            balance (snd (snd (withdraw now amt a))) = dsub (balance a) amt
          \<and> transactions (snd (snd (withdraw now amt a))) =
              transactions a
                @ [\<lparr>txn_type = ''Withdrawal'', amount = amt, date = now,
                    newBalance = dsub (balance a) amt\<rparr>]"
    by (simp add: withdraw_accepted mkTransaction_def)
  have e: "\<forall>x y. balance a = Fin x \<and> amt = Fin y \<and> rnd (x - y) = Fin (x - y) \<longrightarrow>
            dsub (balance a) amt = Fin (x - y)"
    by (simp add: dsub_def)
  have b: "balance a \<noteq> NaN \<longrightarrow> (\<not> dlt (balance a) amt \<longleftrightarrow> dle amt (balance a))"
    using not_dlt_iff_dle [OF _ n] by blast
  have c: "dadd (balance a) odl \<noteq> NaN \<longrightarrow>
      (\<not> dlt (dadd (balance a) odl) amt \<longleftrightarrow> dle amt (dadd (balance a) odl))"
    using not_dlt_iff_dle [OF _ n] by blast
  have p1: "cls a = Base \<or> cls a = Savings rate \<longrightarrow>
            (fst (withdraw now amt a) \<longleftrightarrow> \<not> dlt (balance a) amt)"
    using p by (auto simp: permitted_def)
  have p2: "cls a = Checking odl \<longrightarrow>
            (fst (withdraw now amt a) \<longleftrightarrow> \<not> dlt (dadd (balance a) odl) amt)"
    using p by (auto simp: permitted_def)
  from p1 p2 b c s e show ?thesis
    by blast
qed

theorem C3_withdraw_policy_witness:
  "dlt (Fin 0) (dbl 700)
   \<and> fst (withdraw ''t2'' (dbl 700)
        \<lparr>accountNumber = ''ACC100001'', ownerName = ''Alice Smith'', balance = Fin 600,
         transactions = [], cls = Checking (Fin 200)\<rparr>)
   \<and> balance (snd (snd (withdraw ''t2'' (dbl 700)
        \<lparr>accountNumber = ''ACC100001'', ownerName = ''Alice Smith'', balance = Fin 600,
         transactions = [], cls = Checking (Fin 200)\<rparr>))) = Fin (- 100)
   \<and> \<not> fst (withdraw ''t2'' (dbl 700)
        \<lparr>accountNumber = ''ACC100000'', ownerName = ''Alice Smith'', balance = Fin 600,
         transactions = [], cls = Savings (Fin 0)\<rparr>)"
proof -
  have pos: "dlt (Fin 0) (dbl 700)" by (simp add: dbl_vals)
  from C3_withdraw_policy [OF pos, where now = "''t2''" and odl = "Fin 200" and rate = "Fin 0"
      and a = "\<lparr>accountNumber = ''ACC100001'', ownerName = ''Alice Smith'',
                balance = Fin 600, transactions = [], cls = Checking (Fin 200)\<rparr>"]
    C3_withdraw_policy [OF pos, where now = "''t2''" and odl = "Fin 0" and rate = "Fin 0"
      and a = "\<lparr>accountNumber = ''ACC100000'', ownerName = ''Alice Smith'',
                balance = Fin 600, transactions = [], cls = Savings (Fin 0)\<rparr>"]
    pos
  show ?thesis
    by (simp add: dbl_vals dsub_def rnd_eval)
qed

text \<open>
  C7: a \<^verbatim>\<open>deposit\<close> is rejected exactly when the amount is \<open>\<le> 0\<close>, a \<^verbatim>\<open>withdraw\<close>
  exactly when the amount is \<open>\<le> 0\<close> or the policy of the account, as the source computes
  it, forbids it. A rejected call returns \<open>false\<close> to its caller (it throws nothing) and
  leaves the object as it was: the same balance and a history of the same length.
\<close>

theorem C7_rejected_calls_change_nothing:
  "(\<not> fst (deposit now amt a) \<longleftrightarrow> dle amt (Fin 0))
   \<and> (\<not> fst (withdraw now amt a) \<longleftrightarrow> dle amt (Fin 0) \<or> \<not> permitted a amt)
   \<and> (\<not> fst (deposit now amt a) \<longrightarrow>
        snd (snd (deposit now amt a)) = a
      \<and> balance (snd (snd (deposit now amt a))) = balance a
      \<and> length (transactions (snd (snd (deposit now amt a)))) = length (transactions a))
   \<and> (\<not> fst (withdraw now amt a) \<longrightarrow>
        snd (snd (withdraw now amt a)) = a
      \<and> balance (snd (snd (withdraw now amt a))) = balance a
      \<and> length (transactions (snd (snd (withdraw now amt a)))) = length (transactions a))"
  using deposit_rejected_iff [of now amt a] withdraw_rejected_iff [of now amt a]
    deposit_rejected_same [of now amt a] withdraw_rejected_same [of now amt a]
  by simp

theorem C7_rejected_calls_change_nothing_witness:
  "\<not> fst (deposit ''t1'' (dbl (- 5))
        \<lparr>accountNumber = ''ACC100001'', ownerName = ''Alice Smith'', balance = Fin (- 100),
         transactions = [mkTransaction ''t0'' ''Withdrawal'' (Fin 600) (Fin (- 100))],
         cls = Checking (Fin 200)\<rparr>)
   \<and> \<not> fst (withdraw ''t2'' (dbl 300)
        \<lparr>accountNumber = ''ACC100001'', ownerName = ''Alice Smith'', balance = Fin (- 100),
         transactions = [mkTransaction ''t0'' ''Withdrawal'' (Fin 600) (Fin (- 100))],
         cls = Checking (Fin 200)\<rparr>)
   \<and> snd (snd (deposit ''t1'' (dbl (- 5))
        \<lparr>accountNumber = ''ACC100001'', ownerName = ''Alice Smith'', balance = Fin (- 100),
         transactions = [mkTransaction ''t0'' ''Withdrawal'' (Fin 600) (Fin (- 100))],
         cls = Checking (Fin 200)\<rparr>))
      = \<lparr>accountNumber = ''ACC100001'', ownerName = ''Alice Smith'', balance = Fin (- 100),
         transactions = [mkTransaction ''t0'' ''Withdrawal'' (Fin 600) (Fin (- 100))],
         cls = Checking (Fin 200)\<rparr>
   \<and> snd (snd (withdraw ''t2'' (dbl 300)
        \<lparr>accountNumber = ''ACC100001'', ownerName = ''Alice Smith'', balance = Fin (- 100),
         transactions = [mkTransaction ''t0'' ''Withdrawal'' (Fin 600) (Fin (- 100))],
         cls = Checking (Fin 200)\<rparr>))
      = \<lparr>accountNumber = ''ACC100001'', ownerName = ''Alice Smith'', balance = Fin (- 100),
         transactions = [mkTransaction ''t0'' ''Withdrawal'' (Fin 600) (Fin (- 100))],
         cls = Checking (Fin 200)\<rparr>"
proof -
  let ?a = "\<lparr>accountNumber = ''ACC100001'', ownerName = ''Alice Smith'', balance = Fin (- 100),
         transactions = [mkTransaction ''t0'' ''Withdrawal'' (Fin 600) (Fin (- 100))],
         cls = Checking (Fin 200)\<rparr>"
  have p: "\<not> permitted ?a (dbl 300)"
    by (simp add: permitted_def dbl_vals rnd_eval)
  have n: "dle (dbl (- 5)) (Fin 0)"
    by (simp add: dbl_vals)
  from C7_rejected_calls_change_nothing [of "''t1''" "dbl (- 5)" "?a"] n
  have d: "\<not> fst (deposit ''t1'' (dbl (- 5)) ?a) \<and> snd (snd (deposit ''t1'' (dbl (- 5)) ?a)) = ?a"
    by blast
  from C7_rejected_calls_change_nothing [of "''t2''" "dbl 300" "?a"] p
  have w: "\<not> fst (withdraw ''t2'' (dbl 300) ?a) \<and> snd (snd (withdraw ''t2'' (dbl 300) ?a)) = ?a"
    by blast
  from d w show ?thesis by blast
qed

section \<open>Transfers: the two outcomes of the withdrawal\<close>

lemma transferFunds_withdraw_rejected:
  assumes "accounts b f = Some pf" "accounts b t = Some pt" "f \<noteq> t" "\<not> dle amt (Fin 0)"
    and "\<not> fst (withdraw now1 amt (store b pf))"
  shows "transferFunds now1 now2 f t amt b =
           (False, fst (snd (withdraw now1 amt (store b pf))) @ [TransferFailed], b)"
proof -
  obtain r out1 a1 where w: "withdraw now1 amt (store b pf) = (r, out1, a1)"
    by (cases "withdraw now1 amt (store b pf)") auto
  from assms(5) w have r: "r = False" by simp
  from withdraw_rejected_same [OF assms(5)] w have a1: "a1 = store b pf" by simp
  show ?thesis
    using assms(1-4) by (simp add: transferFunds_def getAccount_def w r a1)
qed

lemma transferFunds_withdraw_accepted:
  assumes "accounts b f = Some pf" "accounts b t = Some pt" "f \<noteq> t" "\<not> dle amt (Fin 0)"
    and "fst (withdraw now1 amt (store b pf))"
  shows "transferFunds now1 now2 f t amt b =
           (True,
            fst (snd (withdraw now1 amt (store b pf)))
              @ fst (snd (deposit now2 amt (((store b)(pf := snd (snd (withdraw now1 amt (store b pf))))) pt)))
              @ [Transferred amt f t],
            b\<lparr>store := ((store b)(pf := snd (snd (withdraw now1 amt (store b pf)))))
                 (pt := snd (snd (deposit now2 amt
                     (((store b)(pf := snd (snd (withdraw now1 amt (store b pf))))) pt))))\<rparr>)"
proof -
  obtain r out1 a1 where w: "withdraw now1 amt (store b pf) = (r, out1, a1)"
    by (cases "withdraw now1 amt (store b pf)") auto
  from assms(5) w have r: "r = True" by simp
  show ?thesis
    using assms(1-4) by (simp add: transferFunds_def getAccount_def w r Let_def case_prod_beta)
qed

lemma transferFunds_success_iff:
  "fst (transferFunds now1 now2 f t amt b) \<longleftrightarrow>
     (\<exists>pf pt. accounts b f = Some pf \<and> accounts b t = Some pt \<and> f \<noteq> t
        \<and> \<not> dle amt (Fin 0) \<and> fst (withdraw now1 amt (store b pf)))"
proof (cases "\<exists>pf pt. accounts b f = Some pf \<and> accounts b t = Some pt \<and> f \<noteq> t
                \<and> \<not> dle amt (Fin 0)")
  case True
  then obtain pf pt where h: "accounts b f = Some pf" "accounts b t = Some pt" "f \<noteq> t" "\<not> dle amt (Fin 0)"
    by blast
  show ?thesis
  proof (cases "fst (withdraw now1 amt (store b pf))")
    case True
    with h transferFunds_withdraw_accepted [OF h True] show ?thesis by auto
  next
    case False
    with h transferFunds_withdraw_rejected [OF h False] show ?thesis by auto
  qed
next
  case False
  then show ?thesis
    by (auto simp: transferFunds_def getAccount_def split: option.splits)
qed

section \<open>Generated identifiers are unique\<close>

lemma digit_char_inj: "d < 10 \<Longrightarrow> e < 10 \<Longrightarrow> digit_char d = digit_char e \<Longrightarrow> d = e"
proof -
  assume d: "d < 10" and e: "e < 10" and eq: "digit_char d = digit_char e"
  have dist: "distinct ''0123456789''" by simp
  have len: "length ''0123456789'' = 10" by simp
  from d e len have "d < length ''0123456789''" "e < length ''0123456789''" by simp_all
  with dist eq show ?thesis
    unfolding digit_char_def by (simp only: nth_eq_iff_index_eq)
qed

lemma digit_char_not_minus: "d < 10 \<Longrightarrow> digit_char d \<noteq> CHR ''-''"
proof -
  assume d: "d < 10"
  have "length ''0123456789'' = 10" by simp
  with d have "d < length ''0123456789''" by simp
  then have "''0123456789'' ! d \<in> set ''0123456789''" by (rule nth_mem)
  then show ?thesis unfolding digit_char_def by auto
qed

lemma digits_nonempty: "digits n \<noteq> []"
  by (subst digits.simps) simp

lemma digits_no_minus: "CHR ''-'' \<notin> set (digits n)"
proof (induction n rule: digits.induct)
  case (1 n)
  show ?case
  proof (cases "n < 10")
    case True
    then show ?thesis using digit_char_not_minus [of n] by (subst digits.simps) auto
  next
    case False
    have "n mod 10 < 10" by simp
    from digit_char_not_minus [OF this] 1 False show ?thesis
      by (subst digits.simps) auto
  qed
qed

lemma digits_inj: "digits n = digits m \<Longrightarrow> n = m"
proof (induction n arbitrary: m rule: digits.induct)
  case (1 n)
  show ?case
  proof (cases "n < 10")
    case n: True
    show ?thesis
    proof (cases "m < 10")
      case True
      with n "1.prems" show ?thesis
        by (simp add: digits.simps [of n] digits.simps [of m] digit_char_inj)
    next
      case False
      with n "1.prems" digits_nonempty [of "m div 10"] show ?thesis
        by (simp add: digits.simps [of n] digits.simps [of m])
    qed
  next
    case n: False
    show ?thesis
    proof (cases "m < 10")
      case True
      with n "1.prems" digits_nonempty [of "n div 10"] show ?thesis
        by (simp add: digits.simps [of n] digits.simps [of m])
    next
      case False
      with n "1.prems" have e: "digits (n div 10) = digits (m div 10)"
        and d: "digit_char (n mod 10) = digit_char (m mod 10)"
        by (simp_all add: digits.simps [of n] digits.simps [of m])
      from "1.IH" [OF n e] have q: "n div 10 = m div 10" .
      have "n mod 10 < 10" "m mod 10 < 10" by simp_all
      from digit_char_inj [OF this d] have r: "n mod 10 = m mod 10" .
      from q r show ?thesis by (metis div_mult_mod_eq)
    qed
  qed
qed

lemma to_string_inj: "to_string i = to_string j \<Longrightarrow> i = j"
proof -
  assume e: "to_string i = to_string j"
  have hd: "\<And>n. hd (digits n) \<noteq> CHR ''-''"
    using digits_no_minus digits_nonempty by (metis hd_in_set)
  show ?thesis
  proof (cases "i < 0")
    case i: True
    show ?thesis
    proof (cases "j < 0")
      case True
      with i e have "digits (nat (- i)) = digits (nat (- j))" by (simp add: to_string_def)
      from digits_inj [OF this] i True show ?thesis by simp
    next
      case False
      with i e have "CHR ''-'' # digits (nat (- i)) = digits (nat j)" by (simp add: to_string_def)
      with hd [of "nat j"] show ?thesis by (metis list.sel(1))
    qed
  next
    case i: False
    show ?thesis
    proof (cases "j < 0")
      case True
      with i e have "CHR ''-'' # digits (nat (- j)) = digits (nat i)" by (simp add: to_string_def)
      with hd [of "nat i"] show ?thesis by (metis list.sel(1))
    next
      case False
      with i e have "digits (nat i) = digits (nat j)" by (simp add: to_string_def)
      from digits_inj [OF this] i False show ?thesis by simp
    qed
  qed
qed

section \<open>What the calls leave unchanged\<close>

lemma deposit_fields:
  "accountNumber (snd (snd (deposit now amt a))) = accountNumber a
   \<and> cls (snd (snd (deposit now amt a))) = cls a"
  by (simp add: deposit_def Let_def)

lemma withdraw_fields:
  "accountNumber (snd (snd (withdraw now amt a))) = accountNumber a
   \<and> cls (snd (snd (withdraw now amt a))) = cls a"
  by (simp add: withdraw_def Account_withdraw_def CheckingAccount_withdraw_def Let_def
      split: dyn_class.splits)

lemma applyInterest_fields:
  "applyInterest now a = Some (out, a') \<Longrightarrow> accountNumber a' = accountNumber a \<and> cls a' = cls a"
  by (auto simp: applyInterest_def Let_def split: dyn_class.splits)

lemma transferFunds_frame:
  "customers (snd (snd (transferFunds now1 now2 f t amt b))) = customers b
   \<and> accounts (snd (snd (transferFunds now1 now2 f t amt b))) = accounts b
   \<and> nextAccountNumber (snd (snd (transferFunds now1 now2 f t amt b))) = nextAccountNumber b
   \<and> nextCustomerId (snd (snd (transferFunds now1 now2 f t amt b))) = nextCustomerId b
   \<and> next_ref (snd (snd (transferFunds now1 now2 f t amt b))) = next_ref b"
  by (simp add: transferFunds_def getAccount_def Let_def case_prod_beta
      split: option.splits bool.splits)

lemma transferFunds_objects:
  assumes "\<And>now amt a. P a \<Longrightarrow> P (snd (snd (deposit now amt a)))"
    and "\<And>now amt a. P a \<Longrightarrow> P (snd (snd (withdraw now amt a)))"
    and "P (store b q)"
  shows "P (store (snd (snd (transferFunds now1 now2 f t amt b))) q)"
proof (cases "fst (transferFunds now1 now2 f t amt b)")
  case True
  then obtain pf pt where h: "accounts b f = Some pf" "accounts b t = Some pt" "f \<noteq> t" "\<not> dle amt (Fin 0)"
    "fst (withdraw now1 amt (store b pf))"
    by (auto simp: transferFunds_success_iff)
  show ?thesis
    using assms by (auto simp add: transferFunds_withdraw_accepted [OF h])
next
  case False
  show ?thesis
  proof (cases "\<exists>pf pt. accounts b f = Some pf \<and> accounts b t = Some pt \<and> f \<noteq> t
                  \<and> \<not> dle amt (Fin 0)")
    case True
    then obtain pf pt where h: "accounts b f = Some pf" "accounts b t = Some pt" "f \<noteq> t" "\<not> dle amt (Fin 0)"
      by blast
    from False h have "\<not> fst (withdraw now1 amt (store b pf))"
      by (auto simp: transferFunds_success_iff)
    from transferFunds_withdraw_rejected [OF h this] assms(3) show ?thesis by simp
  next
    case False
    then have "snd (snd (transferFunds now1 now2 f t amt b)) = b"
      by (auto simp: transferFunds_def getAccount_def split: option.splits)
    with assms(3) show ?thesis by simp
  qed
qed

lemma addCustomer_frame:
  "accounts (snd (snd (addCustomer nm addr b))) = accounts b
   \<and> store (snd (snd (addCustomer nm addr b))) = store b
   \<and> next_ref (snd (snd (addCustomer nm addr b))) = next_ref b
   \<and> nextAccountNumber (snd (snd (addCustomer nm addr b))) = nextAccountNumber b"
  by (simp add: addCustomer_def Let_def split: sum.splits)

lemma addCustomer_customers:
  "customers (snd (snd (addCustomer nm addr b))) cid = Some c \<Longrightarrow>
   customers b cid = Some c \<or> cust_accounts c = Map.empty"
  by (auto simp: addCustomer_def Let_def Customer_ctor_def split: sum.splits if_splits)

text \<open>
  The three outcomes of \<^verbatim>\<open>createAccount\<close>: nothing changes (no such customer); only
  the counter advances (the constructor throws, or the type is unknown); the new object is
  allocated and registered under the generated number.
\<close>

lemma createAccount_cases:
  obtains
    (unchanged) "snd (snd (createAccount cid ty init rate odl b)) = b"
  | (consumed) "snd (snd (createAccount cid ty init rate odl b)) =
                  b\<lparr>nextAccountNumber := nextAccountNumber b + 1\<rparr>"
  | (created) customer a where "customers b cid = Some customer"
      "accountNumber a = ''ACC'' @ to_string (nextAccountNumber b)"
      "snd (snd (createAccount cid ty init rate odl b)) =
         b\<lparr>nextAccountNumber := nextAccountNumber b + 1,
            store := (store b)(next_ref b := a), next_ref := Suc (next_ref b),
            customers := (customers b)(cid \<mapsto> customer\<lparr>cust_accounts :=
                 (cust_accounts customer)(''ACC'' @ to_string (nextAccountNumber b) \<mapsto> next_ref b)\<rparr>),
            accounts := (accounts b)(''ACC'' @ to_string (nextAccountNumber b) \<mapsto> next_ref b)\<rparr>"
proof (cases "customers b cid")
  case None
  then have "snd (snd (createAccount cid ty init rate odl b)) = b"
    by (simp add: createAccount_def getCustomer_def)
  then show ?thesis by (rule unchanged)
next
  case (Some customer)
  let ?n = "''ACC'' @ to_string (nextAccountNumber b)"
  have reg: "\<And>a. accountNumber a = ?n \<Longrightarrow>
     snd (snd (register_account cid customer ty ?n a (b\<lparr>nextAccountNumber := nextAccountNumber b + 1\<rparr>))) =
      b\<lparr>nextAccountNumber := nextAccountNumber b + 1,
            store := (store b)(next_ref b := a), next_ref := Suc (next_ref b),
            customers := (customers b)(cid \<mapsto> customer\<lparr>cust_accounts :=
                 (cust_accounts customer)(?n \<mapsto> next_ref b)\<rparr>),
            accounts := (accounts b)(?n \<mapsto> next_ref b)\<rparr>"
    by (simp add: register_account_def addAccount_def Let_def)
  show ?thesis
  proof (cases "ty = ''savings''")
    case sav: True
    show ?thesis
    proof (cases "SavingsAccount_ctor ?n (cust_name customer) init rate")
      case (Inl e)
      with Some sav have "snd (snd (createAccount cid ty init rate odl b)) =
                  b\<lparr>nextAccountNumber := nextAccountNumber b + 1\<rparr>"
        by (simp add: createAccount_def getCustomer_def Let_def)
      then show ?thesis by (rule consumed)
    next
      case (Inr a)
      then have n: "accountNumber a = ?n"
        by (auto simp: SavingsAccount_ctor_def Account_ctor_def split: if_splits sum.splits)
      from Some sav Inr have "snd (snd (createAccount cid ty init rate odl b)) =
          snd (snd (register_account cid customer ty ?n a (b\<lparr>nextAccountNumber := nextAccountNumber b + 1\<rparr>)))"
        by (simp add: createAccount_def getCustomer_def Let_def)
      with reg [OF n] show ?thesis using created [OF Some n] by simp
    qed
  next
    case nsav: False
    show ?thesis
    proof (cases "ty = ''checking''")
      case chk: True
      show ?thesis
      proof (cases "CheckingAccount_ctor ?n (cust_name customer) init odl")
        case (Inl e)
        with Some chk have "snd (snd (createAccount cid ty init rate odl b)) =
                  b\<lparr>nextAccountNumber := nextAccountNumber b + 1\<rparr>"
          by (simp add: createAccount_def getCustomer_def Let_def)
        then show ?thesis by (rule consumed)
      next
        case (Inr a)
        then have n: "accountNumber a = ?n"
          by (auto simp: CheckingAccount_ctor_def Account_ctor_def split: if_splits sum.splits)
        from Some chk Inr have "snd (snd (createAccount cid ty init rate odl b)) =
          snd (snd (register_account cid customer ty ?n a (b\<lparr>nextAccountNumber := nextAccountNumber b + 1\<rparr>)))"
          by (simp add: createAccount_def getCustomer_def Let_def)
        with reg [OF n] show ?thesis using created [OF Some n] by simp
      qed
    next
      case False
      with Some nsav have "snd (snd (createAccount cid ty init rate odl b)) =
                  b\<lparr>nextAccountNumber := nextAccountNumber b + 1\<rparr>"
        by (simp add: createAccount_def getCustomer_def Let_def)
      then show ?thesis by (rule consumed)
    qed
  qed
qed

section \<open>The registry invariant\<close>

lemma acc_number_inj: "''ACC'' @ to_string i = ''ACC'' @ to_string j \<Longrightarrow> i = j"
  by (simp add: to_string_inj)

lemma bank_wf_Bank_ctor: "bank_wf (Bank_ctor nm)"
  by (simp add: bank_wf_def Bank_ctor_def)

lemma bank_wf_store_update:
  assumes "bank_wf b" "accountNumber a' = accountNumber (store b p)"
  shows "bank_wf (b\<lparr>store := (store b)(p := a')\<rparr>)"
  using assms unfolding bank_wf_def by auto

lemma bank_wf_addCustomer: "bank_wf b \<Longrightarrow> bank_wf (snd (snd (addCustomer nm addr b)))"
  unfolding bank_wf_def
  by (auto simp: addCustomer_def Let_def Customer_ctor_def split: sum.splits if_splits)

lemma bank_wf_counter:
  assumes "bank_wf b"
  shows "bank_wf (b\<lparr>nextAccountNumber := nextAccountNumber b + 1\<rparr>)"
proof -
  define b' where "b' = b\<lparr>nextAccountNumber := nextAccountNumber b + 1\<rparr>"
  have f: "accounts b' = accounts b" "store b' = store b" "next_ref b' = next_ref b"
    "customers b' = customers b" "nextAccountNumber b' = nextAccountNumber b + 1"
    by (simp_all add: b'_def)
  have m: "\<And>k. k < nextAccountNumber b \<Longrightarrow> k < nextAccountNumber b + 1" by simp
  from assms have "bank_wf b'"
    unfolding bank_wf_def f using m by blast
  then show ?thesis by (simp only: b'_def)
qed

lemma bank_wf_fresh:
  assumes "bank_wf b"
  shows "accounts b (''ACC'' @ to_string (nextAccountNumber b)) = None"
proof (cases "accounts b (''ACC'' @ to_string (nextAccountNumber b))")
  case None
  then show ?thesis .
next
  case (Some p)
  with assms obtain k where k: "k < nextAccountNumber b"
    and e: "''ACC'' @ to_string (nextAccountNumber b) = ''ACC'' @ to_string k"
    unfolding bank_wf_def by blast
  from acc_number_inj [OF e] k show ?thesis by simp
qed

lemma bank_wf_register:
  assumes wf: "bank_wf b"
    and cust: "customers b cid = Some customer"
    and num: "accountNumber a = ''ACC'' @ to_string (nextAccountNumber b)"
  shows "bank_wf (b\<lparr>nextAccountNumber := nextAccountNumber b + 1,
            store := (store b)(next_ref b := a), next_ref := Suc (next_ref b),
            customers := (customers b)(cid \<mapsto> customer\<lparr>cust_accounts :=
                 (cust_accounts customer)
                   (''ACC'' @ to_string (nextAccountNumber b) \<mapsto> next_ref b)\<rparr>),
            accounts := (accounts b)
                   (''ACC'' @ to_string (nextAccountNumber b) \<mapsto> next_ref b)\<rparr>)"
proof -
  define n where "n = ''ACC'' @ to_string (nextAccountNumber b)"
  from wf have w1: "\<And>m p. accounts b m = Some p \<Longrightarrow> p < next_ref b"
    and w1': "\<And>m p. accounts b m = Some p \<Longrightarrow> accountNumber (store b p) = m"
    and w2: "\<And>c' d m p. customers b c' = Some d \<Longrightarrow> cust_accounts d m = Some p
               \<Longrightarrow> accounts b m = Some p"
    and w3: "\<And>m p. accounts b m = Some p
               \<Longrightarrow> \<exists>k. k < nextAccountNumber b \<and> m = ''ACC'' @ to_string k"
    and w4: "\<And>p. p < next_ref b \<Longrightarrow> accounts b (accountNumber (store b p)) = Some p"
    unfolding bank_wf_def by blast+
  from bank_wf_fresh [OF wf] have fresh: "accounts b n = None" by (simp add: n_def)
  have c1: "\<And>m p. ((accounts b)(n \<mapsto> next_ref b)) m = Some p
             \<Longrightarrow> p < Suc (next_ref b) \<and> accountNumber (((store b)(next_ref b := a)) p) = m"
  proof -
    fix m p
    assume h: "((accounts b)(n \<mapsto> next_ref b)) m = Some p"
    show "p < Suc (next_ref b) \<and> accountNumber (((store b)(next_ref b := a)) p) = m"
    proof (cases "m = n")
      case True
      with h num show ?thesis by (simp add: n_def)
    next
      case False
      with h have "accounts b m = Some p" by simp
      from w1 [OF this] w1' [OF this] show ?thesis by simp
    qed
  qed
  have c2: "\<And>c' d m p. ((customers b)(cid \<mapsto> customer\<lparr>cust_accounts :=
                 (cust_accounts customer)(n \<mapsto> next_ref b)\<rparr>)) c' = Some d
             \<Longrightarrow> cust_accounts d m = Some p
             \<Longrightarrow> ((accounts b)(n \<mapsto> next_ref b)) m = Some p"
  proof -
    fix c' d m p
    assume h: "((customers b)(cid \<mapsto> customer\<lparr>cust_accounts :=
                 (cust_accounts customer)(n \<mapsto> next_ref b)\<rparr>)) c' = Some d"
      and g: "cust_accounts d m = Some p"
    show "((accounts b)(n \<mapsto> next_ref b)) m = Some p"
    proof (cases "m = n")
      case mn: True
      show ?thesis
      proof (cases "c' = cid")
        case True
        with h g mn show ?thesis by auto
      next
        case False
        with h have "customers b c' = Some d" by simp
        from w2 [OF this g] mn fresh show ?thesis by simp
      qed
    next
      case mn: False
      show ?thesis
      proof (cases "c' = cid")
        case True
        with h g mn have "cust_accounts customer m = Some p" by auto
        from w2 [OF cust this] mn show ?thesis by simp
      next
        case False
        with h have "customers b c' = Some d" by simp
        from w2 [OF this g] mn show ?thesis by simp
      qed
    qed
  qed
  have c3: "\<And>m p. ((accounts b)(n \<mapsto> next_ref b)) m = Some p
             \<Longrightarrow> \<exists>k. k < nextAccountNumber b + 1 \<and> m = ''ACC'' @ to_string k"
  proof -
    fix m p
    assume h: "((accounts b)(n \<mapsto> next_ref b)) m = Some p"
    show "\<exists>k. k < nextAccountNumber b + 1 \<and> m = ''ACC'' @ to_string k"
    proof (cases "m = n")
      case True
      have "nextAccountNumber b < nextAccountNumber b + 1" by simp
      with True show ?thesis unfolding n_def by blast
    next
      case False
      with h have "accounts b m = Some p" by simp
      from w3 [OF this] obtain k where "k < nextAccountNumber b" "m = ''ACC'' @ to_string k"
        by blast
      moreover from this have "k < nextAccountNumber b + 1" by simp
      ultimately show ?thesis by blast
    qed
  qed
  have c4: "\<And>p. p < Suc (next_ref b)
             \<Longrightarrow> ((accounts b)(n \<mapsto> next_ref b)) (accountNumber (((store b)(next_ref b := a)) p))
                   = Some p"
  proof -
    fix p
    assume h: "p < Suc (next_ref b)"
    show "((accounts b)(n \<mapsto> next_ref b)) (accountNumber (((store b)(next_ref b := a)) p))
            = Some p"
    proof (cases "p = next_ref b")
      case True
      with num show ?thesis by (simp add: n_def)
    next
      case False
      with h have "p < next_ref b" by simp
      from w4 [OF this] have r: "accounts b (accountNumber (store b p)) = Some p" .
      with fresh have "accountNumber (store b p) \<noteq> n" by auto
      with r False show ?thesis by simp
    qed
  qed
  define b' where "b' = b\<lparr>nextAccountNumber := nextAccountNumber b + 1,
            store := (store b)(next_ref b := a), next_ref := Suc (next_ref b),
            customers := (customers b)(cid \<mapsto> customer\<lparr>cust_accounts :=
                 (cust_accounts customer)(n \<mapsto> next_ref b)\<rparr>),
            accounts := (accounts b)(n \<mapsto> next_ref b)\<rparr>"
  have f: "accounts b' = (accounts b)(n \<mapsto> next_ref b)"
    "store b' = (store b)(next_ref b := a)"
    "next_ref b' = Suc (next_ref b)"
    "nextAccountNumber b' = nextAccountNumber b + 1"
    "customers b' = (customers b)(cid \<mapsto> customer\<lparr>cust_accounts :=
                 (cust_accounts customer)(n \<mapsto> next_ref b)\<rparr>)"
    by (simp_all add: b'_def)
  have "bank_wf b'"
    unfolding bank_wf_def f using c1 c2 c3 c4 by blast
  then show ?thesis by (simp only: b'_def n_def)
qed

lemma bank_wf_createAccount:
  assumes "bank_wf b"
  shows "bank_wf (snd (snd (createAccount cid ty init rate odl b)))"
proof (cases cid ty init rate odl b rule: createAccount_cases)
  case unchanged
  with assms show ?thesis by simp
next
  case consumed
  with bank_wf_counter [OF assms] show ?thesis by simp
next
  case (created customer a)
  from bank_wf_register [OF assms created(1,2)] created(3) show ?thesis by simp
qed

lemma bank_wf_transferFunds:
  assumes "bank_wf b"
  shows "bank_wf (snd (snd (transferFunds now1 now2 f t amt b)))"
proof -
  let ?b' = "snd (snd (transferFunds now1 now2 f t amt b))"
  have n: "\<And>q. accountNumber (store ?b' q) = accountNumber (store b q)"
  proof -
    fix q
    have "(\<lambda>a. accountNumber a = accountNumber (store b q)) (store ?b' q)"
      by (rule transferFunds_objects) (simp_all add: deposit_fields withdraw_fields)
    then show "accountNumber (store ?b' q) = accountNumber (store b q)" .
  qed
  from assms show ?thesis
    unfolding bank_wf_def by (simp add: transferFunds_frame n)
qed

lemma bank_wf_exec:
  assumes "bank_wf b" "exec c b = Some b'"
  shows "bank_wf b'"
proof (cases c)
  case (AddCustomer nm addr)
  with assms bank_wf_addCustomer [OF assms(1), of nm addr] show ?thesis by auto
next
  case (CreateAccount cid ty init rate odl)
  with assms bank_wf_createAccount [OF assms(1), of cid ty init rate odl] show ?thesis by auto
next
  case (Deposit p now amt)
  with assms(2) have "b' = b\<lparr>store := (store b)(p := snd (snd (deposit now amt (store b p))))\<rparr>"
    by (auto split: if_splits)
  with bank_wf_store_update [OF assms(1), of "snd (snd (deposit now amt (store b p)))" p]
  show ?thesis by (simp add: deposit_fields)
next
  case (Withdraw p now amt)
  with assms(2) have "b' = b\<lparr>store := (store b)(p := snd (snd (withdraw now amt (store b p))))\<rparr>"
    by (auto split: if_splits)
  with bank_wf_store_update [OF assms(1), of "snd (snd (withdraw now amt (store b p)))" p]
  show ?thesis by (simp add: withdraw_fields)
next
  case (ApplyInterest p now)
  with assms(2) obtain out a' where a: "applyInterest now (store b p) = Some (out, a')"
    and b': "b' = b\<lparr>store := (store b)(p := a')\<rparr>"
    by (auto split: if_splits option.splits)
  from applyInterest_fields [OF a] bank_wf_store_update [OF assms(1), of a' p] b'
  show ?thesis by simp
next
  case (TransferFunds now1 now2 f t amt)
  with assms bank_wf_transferFunds [OF assms(1), of now1 now2 f t amt] show ?thesis by auto
qed

lemma bank_wf_run: "bank_wf b \<Longrightarrow> run cs b = Some b' \<Longrightarrow> bank_wf b'"
proof (induction cs arbitrary: b)
  case Nil
  then show ?case by simp
next
  case (Cons c cs)
  from Cons.prems(2) obtain b1 where e: "exec c b = Some b1" and r: "run cs b1 = Some b'"
    by (auto split: option.splits)
  from Cons.IH [OF bank_wf_exec [OF Cons.prems(1) e] r] show ?case .
qed

lemma reachable_bank_wf: "reachable b \<Longrightarrow> bank_wf b"
  unfolding reachable_def using bank_wf_run [OF bank_wf_Bank_ctor] by blast

lemma bank_wf_distinct_objects:
  assumes "bank_wf b" "accounts b f = Some pf" "accounts b t = Some pt" "f \<noteq> t"
  shows "pf \<noteq> pt"
  using assms unfolding bank_wf_def by metis

lemma reachable_distinct_objects:
  assumes "reachable b" "accounts b f = Some pf" "accounts b t = Some pt" "f \<noteq> t"
  shows "pf \<noteq> pt"
  using bank_wf_distinct_objects [OF reachable_bank_wf [OF assms(1)] assms(2-4)] .

lemma skipped_store_update: "skipped k (b\<lparr>store := s\<rparr>) = skipped k b"
  by (simp add: skipped_def registered_def)

lemma skipped_addCustomer:
  assumes "skipped k b"
  shows "skipped k (snd (snd (addCustomer nm addr b)))"
proof -
  let ?b' = "snd (snd (addCustomer nm addr b))"
  let ?n = "''ACC'' @ to_string k"
  from assms have k: "k < nextAccountNumber b" and a: "accounts b ?n = None"
    and c: "\<And>cid c. customers b cid = Some c \<Longrightarrow> cust_accounts c ?n = None"
    unfolding skipped_def registered_def by auto
  have "\<And>cid c. customers ?b' cid = Some c \<Longrightarrow> cust_accounts c ?n = None"
  proof -
    fix cid c
    assume "customers ?b' cid = Some c"
    from addCustomer_customers [OF this] c show "cust_accounts c ?n = None" by auto
  qed
  with k a show ?thesis
    unfolding skipped_def registered_def by (auto simp: addCustomer_frame)
qed

lemma skipped_createAccount:
  assumes "skipped k b"
  shows "skipped k (snd (snd (createAccount cid ty init rate odl b)))"
proof (cases cid ty init rate odl b rule: createAccount_cases)
  case unchanged
  with assms show ?thesis by simp
next
  case consumed
  from assms have "skipped k (b\<lparr>nextAccountNumber := nextAccountNumber b + 1\<rparr>)"
    by (simp add: skipped_def registered_def)
  with consumed show ?thesis by simp
next
  case (created customer a)
  let ?n = "''ACC'' @ to_string k"
  from assms have k: "k < nextAccountNumber b" and a: "accounts b ?n = None"
    and c: "\<And>cid c. customers b cid = Some c \<Longrightarrow> cust_accounts c ?n = None"
    unfolding skipped_def registered_def by auto
  from k have ne: "''ACC'' @ to_string (nextAccountNumber b) \<noteq> ?n"
    using acc_number_inj [of "nextAccountNumber b" k] by auto
  have "skipped k (b\<lparr>nextAccountNumber := nextAccountNumber b + 1,
            store := (store b)(next_ref b := a), next_ref := Suc (next_ref b),
            customers := (customers b)(cid \<mapsto> customer\<lparr>cust_accounts :=
                 (cust_accounts customer)(''ACC'' @ to_string (nextAccountNumber b) \<mapsto> next_ref b)\<rparr>),
            accounts := (accounts b)(''ACC'' @ to_string (nextAccountNumber b) \<mapsto> next_ref b)\<rparr>)"
    unfolding skipped_def registered_def
    using k a c [OF created(1)] c ne by (auto split: if_splits)
  with created(3) show ?thesis by simp
qed

lemma skipped_transferFunds:
  assumes "skipped k b"
  shows "skipped k (snd (snd (transferFunds now1 now2 f t amt b)))"
  using assms by (simp add: skipped_def registered_def transferFunds_frame)

lemma skipped_exec:
  assumes "skipped k b" "exec c b = Some b'"
  shows "skipped k b'"
proof (cases c)
  case (AddCustomer nm addr)
  with assms(2) skipped_addCustomer [OF assms(1), of nm addr] show ?thesis by auto
next
  case (CreateAccount cid ty init rate odl)
  with assms(2) skipped_createAccount [OF assms(1), of cid ty init rate odl] show ?thesis by auto
next
  case (Deposit p now amt)
  with assms show ?thesis by (auto simp: skipped_store_update split: if_splits)
next
  case (Withdraw p now amt)
  with assms show ?thesis by (auto simp: skipped_store_update split: if_splits)
next
  case (ApplyInterest p now)
  with assms show ?thesis by (auto simp: skipped_store_update split: if_splits option.splits)
next
  case (TransferFunds now1 now2 f t amt)
  with assms(2) skipped_transferFunds [OF assms(1), of now1 now2 f t amt] show ?thesis by auto
qed

lemma skipped_run: "skipped k b \<Longrightarrow> run cs b = Some b' \<Longrightarrow> skipped k b'"
proof (induction cs arbitrary: b)
  case Nil
  then show ?case by simp
next
  case (Cons c cs)
  from Cons.prems(2) obtain b1 where e: "exec c b = Some b1" and r: "run cs b1 = Some b'"
    by (auto split: option.splits)
  from Cons.IH [OF skipped_exec [OF Cons.prems(1) e] r] show ?case .
qed

lemma bank_wf_not_registered:
  assumes "bank_wf b"
  shows "\<not> registered b (''ACC'' @ to_string (nextAccountNumber b))"
proof -
  from bank_wf_fresh [OF assms]
  have a: "accounts b (''ACC'' @ to_string (nextAccountNumber b)) = None" .
  from assms have "\<And>cid c p. customers b cid = Some c \<Longrightarrow>
      cust_accounts c (''ACC'' @ to_string (nextAccountNumber b)) = Some p \<Longrightarrow>
      accounts b (''ACC'' @ to_string (nextAccountNumber b)) = Some p"
    unfolding bank_wf_def by blast
  with a show ?thesis
    unfolding registered_def by fastforce
qed

section \<open>The bank of \<^verbatim>\<open>main\<close>\<close>

lemma to_string_vals:
  "to_string 1000 = ''1000''" "to_string 1001 = ''1001''"
  "to_string 100000 = ''100000''" "to_string 100001 = ''100001''"
  "to_string 100002 = ''100002''" "to_string 100003 = ''100003''"
  "to_string 100004 = ''100004''"
  by (simp_all add: to_string_def digits.simps digit_char_def)

lemma main_bank_eq:
  "main_bank =
    \<lparr>bank_name = ''Global Bank Inc.'',
     customers =
       [''C1000'' \<mapsto> \<lparr>customerId = ''C1000'', cust_name = ''Alice Smith'',
                        cust_address = ''123 Main St, Anytown'',
                        cust_accounts = [''ACC100000'' \<mapsto> 0, ''ACC100001'' \<mapsto> 1]\<rparr>,
        ''C1001'' \<mapsto> \<lparr>customerId = ''C1001'', cust_name = ''Bob Johnson'',
                        cust_address = ''456 Oak Ave, Otherville'',
                        cust_accounts = [''ACC100002'' \<mapsto> 2, ''ACC100003'' \<mapsto> 3]\<rparr>],
     accounts = [''ACC100000'' \<mapsto> 0, ''ACC100001'' \<mapsto> 1, ''ACC100002'' \<mapsto> 2,
                 ''ACC100003'' \<mapsto> 3],
     nextCustomerId = 1002, nextAccountNumber = 100004,
     store = (\<lambda>_. null_Account)
       (0 := \<lparr>accountNumber = ''ACC100000'', ownerName = ''Alice Smith'', balance = Fin 1000,
              transactions = [], cls = Savings (dbl 0.015)\<rparr>,
        1 := \<lparr>accountNumber = ''ACC100001'', ownerName = ''Alice Smith'', balance = Fin 500,
              transactions = [], cls = Checking (Fin 200)\<rparr>,
        2 := \<lparr>accountNumber = ''ACC100002'', ownerName = ''Bob Johnson'', balance = Fin 2500,
              transactions = [], cls = Savings (dbl 0.01)\<rparr>,
        3 := \<lparr>accountNumber = ''ACC100003'', ownerName = ''Bob Johnson'', balance = Fin 100,
              transactions = [], cls = Checking (Fin 500)\<rparr>),
     next_ref = 4\<rparr>"
proof -
  define r15 where "r15 = dbl 0.015"
  define r1 where "r1 = dbl 0.01"
  have ok: "\<not> dlt r15 (Fin 0)" "\<not> dlt (Fin 1) r15" "\<not> dlt r1 (Fin 0)" "\<not> dlt (Fin 1) r1"
    by (simp_all add: r15_def r1_def dbl_vals_normal)
  show ?thesis
    unfolding main_bank_def r15_def [symmetric] r1_def [symmetric]
    by (simp add: Bank_ctor_def addCustomer_def Customer_ctor_def createAccount_def
        getCustomer_def SavingsAccount_ctor_def CheckingAccount_ctor_def Account_ctor_def
        register_account_def addAccount_def to_string_vals Let_def numeral_eq_Suc ok
        dbl_vals [unfolded numeral_eq_Suc])
qed

lemma main_bank_accounts:
  "accounts main_bank ''ACC100000'' = Some 0" "accounts main_bank ''ACC100001'' = Some 1"
  "accounts main_bank ''ACC100002'' = Some 2" "accounts main_bank ''ACC100003'' = Some 3"
  "accounts main_bank ''ACC1'' = None" "accounts main_bank ''ACC2'' = None"
  by (simp_all add: main_bank_eq)

lemma main_bank_store:
  "store main_bank 0 = \<lparr>accountNumber = ''ACC100000'', ownerName = ''Alice Smith'',
      balance = Fin 1000, transactions = [], cls = Savings (dbl 0.015)\<rparr>"
  "store main_bank 1 = \<lparr>accountNumber = ''ACC100001'', ownerName = ''Alice Smith'',
      balance = Fin 500, transactions = [], cls = Checking (Fin 200)\<rparr>"
  "store main_bank 2 = \<lparr>accountNumber = ''ACC100002'', ownerName = ''Bob Johnson'',
      balance = Fin 2500, transactions = [], cls = Savings (dbl 0.01)\<rparr>"
  "store main_bank 3 = \<lparr>accountNumber = ''ACC100003'', ownerName = ''Bob Johnson'',
      balance = Fin 100, transactions = [], cls = Checking (Fin 500)\<rparr>"
  "store main_bank (Suc 0) = \<lparr>accountNumber = ''ACC100001'', ownerName = ''Alice Smith'',
      balance = Fin 500, transactions = [], cls = Checking (Fin 200)\<rparr>"
  by (simp_all add: main_bank_eq)

lemma main_bank_counters:
  "next_ref main_bank = 4" "nextAccountNumber main_bank = 100004"
  by (simp_all add: main_bank_eq)

lemma main_bank_customers:
  "customers main_bank ''C1000'' =
     Some \<lparr>customerId = ''C1000'', cust_name = ''Alice Smith'',
           cust_address = ''123 Main St, Anytown'',
           cust_accounts = [''ACC100000'' \<mapsto> 0, ''ACC100001'' \<mapsto> 1]\<rparr>"
  by (simp add: main_bank_eq)

lemma main_bank_reachable: "reachable main_bank"
proof -
  have "run [AddCustomer ''Alice Smith'' ''123 Main St, Anytown'',
             AddCustomer ''Bob Johnson'' ''456 Oak Ave, Otherville'',
             CreateAccount ''C1000'' ''savings'' (dbl 1000) (dbl 0.015) (dbl 0),
             CreateAccount ''C1000'' ''checking'' (dbl 500) (dbl 0) (dbl 200),
             CreateAccount ''C1001'' ''savings'' (dbl 2500) (dbl 0.01) (dbl 0),
             CreateAccount ''C1001'' ''checking'' (dbl 100) (dbl 0) (dbl 500)]
          (Bank_ctor ''Global Bank Inc.'') = Some main_bank"
    by (simp add: main_bank_def Let_def)
  then show ?thesis
    unfolding reachable_def by blast
qed

lemma big_bank_eq:
  "big_bank =
    \<lparr>bank_name = ''Big Bank'',
     customers =
       [''C1000'' \<mapsto> \<lparr>customerId = ''C1000'', cust_name = ''Carol White'',
                        cust_address = ''789 Pine Rd, Elsewhere'',
                        cust_accounts = [''ACC100000'' \<mapsto> 0, ''ACC100001'' \<mapsto> 1]\<rparr>],
     accounts = [''ACC100000'' \<mapsto> 0, ''ACC100001'' \<mapsto> 1],
     nextCustomerId = 1001, nextAccountNumber = 100002,
     store = (\<lambda>_. null_Account)
       (0 := \<lparr>accountNumber = ''ACC100000'', ownerName = ''Carol White'',
              balance = Fin 10000000000000000, transactions = [], cls = Savings (dbl 0.01)\<rparr>,
        1 := \<lparr>accountNumber = ''ACC100001'', ownerName = ''Carol White'',
              balance = Fin 0, transactions = [], cls = Savings (dbl 0.01)\<rparr>),
     next_ref = 2\<rparr>"
proof -
  define r1 where "r1 = dbl 0.01"
  have ok: "\<not> dlt r1 (Fin 0)" "\<not> dlt (Fin 1) r1"
    by (simp_all add: r1_def dbl_vals_normal)
  show ?thesis
    unfolding big_bank_def r1_def [symmetric]
    by (simp add: Bank_ctor_def addCustomer_def Customer_ctor_def createAccount_def
        getCustomer_def SavingsAccount_ctor_def Account_ctor_def
        register_account_def addAccount_def to_string_vals Let_def numeral_eq_Suc ok
        dbl_vals [unfolded numeral_eq_Suc])
qed

lemma big_bank_accounts:
  "accounts big_bank ''ACC100000'' = Some 0" "accounts big_bank ''ACC100001'' = Some 1"
  by (simp_all add: big_bank_eq)

lemma big_bank_store:
  "store big_bank 0 = \<lparr>accountNumber = ''ACC100000'', ownerName = ''Carol White'',
      balance = Fin 10000000000000000, transactions = [], cls = Savings (dbl 0.01)\<rparr>"
  "store big_bank 1 = \<lparr>accountNumber = ''ACC100001'', ownerName = ''Carol White'',
      balance = Fin 0, transactions = [], cls = Savings (dbl 0.01)\<rparr>"
  "store big_bank (Suc 0) = \<lparr>accountNumber = ''ACC100001'', ownerName = ''Carol White'',
      balance = Fin 0, transactions = [], cls = Savings (dbl 0.01)\<rparr>"
  by (simp_all add: big_bank_eq)

section \<open>Transfers: failure, order of the tests, what a success moves\<close>

text \<open>
  C2: in a transfer between two registered accounts with different numbers and a positive
  amount, when \<^verbatim>\<open>withdraw\<close> on the source returns \<open>false\<close>, \<^verbatim>\<open>transferFunds\<close> returns
  \<open>false\<close> and the whole state is as before the call; in particular the balance and the
  history of the destination are unchanged.
\<close>

theorem C2_failed_withdrawal_leaves_destination:
  assumes "accounts b f = Some pf" "accounts b t = Some pt" "f \<noteq> t" "dlt (Fin 0) amt"
    and "\<not> fst (withdraw now1 amt (store b pf))"
  shows "fst (transferFunds now1 now2 f t amt b) = False
       \<and> snd (snd (transferFunds now1 now2 f t amt b)) = b
       \<and> balance (store (snd (snd (transferFunds now1 now2 f t amt b))) pt)
           = balance (store b pt)
       \<and> transactions (store (snd (snd (transferFunds now1 now2 f t amt b))) pt)
           = transactions (store b pt)"
  by (simp add: transferFunds_withdraw_rejected
      [OF assms(1-3) dlt_zero_not_dle [OF assms(4)] assms(5)])

theorem C2_failed_withdrawal_leaves_destination_witness:
  "accounts main_bank ''ACC100003'' = Some 3 \<and> accounts main_bank ''ACC100000'' = Some 0
   \<and> dlt (Fin 0) (dbl 10000)
   \<and> \<not> fst (withdraw ''t1'' (dbl 10000) (store main_bank 3))
   \<and> fst (transferFunds ''t1'' ''t2'' ''ACC100003'' ''ACC100000'' (dbl 10000) main_bank) = False
   \<and> balance (store (snd (snd
        (transferFunds ''t1'' ''t2'' ''ACC100003'' ''ACC100000'' (dbl 10000) main_bank))) 0)
       = Fin 1000"
proof -
  have w: "\<not> fst (withdraw ''t1'' (dbl 10000) (store main_bank 3))"
    by (simp add: main_bank_store withdraw_def CheckingAccount_withdraw_def dbl_vals rnd_eval)
  have ne: "''ACC100003'' \<noteq> ''ACC100000''" by simp
  have pos: "dlt (Fin 0) (dbl 10000)" by (simp add: dbl_vals)
  from C2_failed_withdrawal_leaves_destination
    [OF main_bank_accounts(4) main_bank_accounts(1) ne pos w, of "''t2''"] w pos
  show ?thesis
    by (simp add: main_bank_accounts main_bank_store)
qed

text \<open>
  C6: \<^verbatim>\<open>transferFunds\<close> tests, in this order, that the source is registered, that the
  destination is registered, that the two numbers differ and that the amount is positive.
  The first test that fails decides the outcome, whatever the later ones would say: the
  call returns \<open>false\<close>, writes the message of that test alone (each test has its own) and
  leaves the state unchanged.
\<close>

theorem C6_transfer_precondition_order:
  "(accounts b f = None \<longrightarrow>
      transferFunds now1 now2 f t amt b = (False, [SourceNotFound f], b))
   \<and> (accounts b f \<noteq> None \<and> accounts b t = None \<longrightarrow>
      transferFunds now1 now2 f t amt b = (False, [DestinationNotFound t], b))
   \<and> (accounts b f \<noteq> None \<and> accounts b t \<noteq> None \<and> f = t \<longrightarrow>
      transferFunds now1 now2 f t amt b = (False, [SameAccount], b))
   \<and> (accounts b f \<noteq> None \<and> accounts b t \<noteq> None \<and> f \<noteq> t \<and> dle amt (Fin 0) \<longrightarrow>
      transferFunds now1 now2 f t amt b = (False, [TransferNotPositive], b))"
  by (auto simp: transferFunds_def getAccount_def split: option.splits)

theorem C6_transfer_precondition_order_witness:
  "transferFunds ''t1'' ''t2'' ''ACC1'' ''ACC1'' (dbl (- 1)) main_bank
     = (False, [SourceNotFound ''ACC1''], main_bank)
   \<and> transferFunds ''t1'' ''t2'' ''ACC100000'' ''ACC2'' (dbl (- 1)) main_bank
     = (False, [DestinationNotFound ''ACC2''], main_bank)
   \<and> transferFunds ''t1'' ''t2'' ''ACC100000'' ''ACC100000'' (dbl (- 1)) main_bank
     = (False, [SameAccount], main_bank)
   \<and> transferFunds ''t1'' ''t2'' ''ACC100000'' ''ACC100001'' (dbl 0) main_bank
     = (False, [TransferNotPositive], main_bank)"
  using C6_transfer_precondition_order
      [of main_bank "''ACC1''" "''t1''" "''t2''" "''ACC1''" "dbl (- 1)"]
    C6_transfer_precondition_order
      [of main_bank "''ACC100000''" "''t1''" "''t2''" "''ACC2''" "dbl (- 1)"]
    C6_transfer_precondition_order
      [of main_bank "''ACC100000''" "''t1''" "''t2''" "''ACC100000''" "dbl (- 1)"]
    C6_transfer_precondition_order
      [of main_bank "''ACC100000''" "''t1''" "''t2''" "''ACC100001''" "dbl 0"]
  by (simp add: main_bank_accounts dbl_vals)

text \<open>
  C9, as it is stated: a successful transfer takes exactly the amount from the
  source, adds exactly the amount to the destination and so keeps the sum of the two
  balances. The balances are \<^verbatim>\<open>double\<close>s: a transfer of 1 from the account holding
  10000000000000000 to the empty account of the same customer succeeds, leaves the source
  at 10000000000000000 (9999999999999999 is no double) and the destination at 1, and the
  sum of the two balances has grown by 1.
\<close>

theorem C9_rounding_counterexample:
  "accounts big_bank ''ACC100000'' = Some 0 \<and> accounts big_bank ''ACC100001'' = Some 1
   \<and> balance (store big_bank 0) = Fin 10000000000000000
   \<and> balance (store big_bank 1) = Fin 0
   \<and> fst (transferFunds ''t1'' ''t2'' ''ACC100000'' ''ACC100001'' (dbl 1) big_bank)
   \<and> balance (store (snd (snd
        (transferFunds ''t1'' ''t2'' ''ACC100000'' ''ACC100001'' (dbl 1) big_bank))) 0)
       = Fin 10000000000000000
   \<and> balance (store (snd (snd
        (transferFunds ''t1'' ''t2'' ''ACC100000'' ''ACC100001'' (dbl 1) big_bank))) 1)
       = Fin 1
   \<and> 10000000000000000 + 1 \<noteq> (10000000000000000 + 0 :: real)"
proof -
  have ne: "''ACC100000'' \<noteq> ''ACC100001''" by simp
  have pos: "\<not> dle (Fin 1) (Fin 0)" by simp
  have w: "fst (withdraw ''t1'' (Fin 1) (store big_bank 0))"
    by (simp add: big_bank_store withdraw_def Account_withdraw_def Let_def)
  note e = transferFunds_withdraw_accepted
    [OF big_bank_accounts(1) big_bank_accounts(2) ne pos w, of "''t2''"]
  show ?thesis
    by (simp add: dbl_vals e big_bank_accounts big_bank_store withdraw_def Account_withdraw_def
        deposit_def dsub_def Let_def rnd_eval)
qed

text \<open>
  C9, amended: after a successful transfer between two registered accounts that are
  distinct objects, the balance of the source is the \<^verbatim>\<open>double\<close> difference of its old
  balance and the amount, and the balance of the destination the \<^verbatim>\<open>double\<close> sum of its
  old balance and the amount. Whenever neither operation rounds (the three numbers are
  finite and the exact difference and the exact sum are doubles), the source has decreased
  by exactly the amount, the destination has increased by exactly the amount and the sum
  of the two balances is the same as before. Every other account object, and both maps of
  the registry, are unchanged.
\<close>

theorem C9_transfer_moves_amount:
  assumes "accounts b f = Some pf" "accounts b t = Some pt" "pf \<noteq> pt"
    and "fst (transferFunds now1 now2 f t amt b)"
    and "b' = snd (snd (transferFunds now1 now2 f t amt b))"
  shows "balance (store b' pf) = dsub (balance (store b pf)) amt
       \<and> balance (store b' pt) = dadd (balance (store b pt)) amt
       \<and> (\<forall>x y z. balance (store b pf) = Fin x \<and> balance (store b pt) = Fin y \<and> amt = Fin z
              \<and> rnd (x - z) = Fin (x - z) \<and> rnd (y + z) = Fin (y + z) \<longrightarrow>
            balance (store b' pf) = Fin (x - z) \<and> balance (store b' pt) = Fin (y + z)
          \<and> (x - z) + (y + z) = x + y)
       \<and> (\<forall>p. p \<noteq> pf \<and> p \<noteq> pt \<longrightarrow> store b' p = store b p)
       \<and> accounts b' = accounts b \<and> customers b' = customers b"
proof -
  from assms(4) assms(1,2) have h: "f \<noteq> t" "\<not> dle amt (Fin 0)"
    "fst (withdraw now1 amt (store b pf))"
    by (auto simp: transferFunds_success_iff)
  note eq = transferFunds_withdraw_accepted [OF assms(1,2) h, of now2]
  have s: "balance (store b' pf) = dsub (balance (store b pf)) amt"
    and d: "balance (store b' pt) = dadd (balance (store b pt)) amt"
    and o: "\<forall>p. p \<noteq> pf \<and> p \<noteq> pt \<longrightarrow> store b' p = store b p"
    and m: "accounts b' = accounts b \<and> customers b' = customers b"
    using assms(3) h(2)
    by (simp_all add: assms(5) eq withdraw_accepted [OF h(3)] deposit_accepted)
  have e: "\<forall>x y z. balance (store b pf) = Fin x \<and> balance (store b pt) = Fin y \<and> amt = Fin z
              \<and> rnd (x - z) = Fin (x - z) \<and> rnd (y + z) = Fin (y + z) \<longrightarrow>
            balance (store b' pf) = Fin (x - z) \<and> balance (store b' pt) = Fin (y + z)
          \<and> (x - z) + (y + z) = x + y"
    by (simp add: s d dsub_def)
  from s d e o m show ?thesis by blast
qed

theorem C9_transfer_moves_amount_witness:
  "accounts main_bank ''ACC100001'' = Some 1 \<and> accounts main_bank ''ACC100002'' = Some 2
   \<and> fst (transferFunds ''t1'' ''t2'' ''ACC100001'' ''ACC100002'' (dbl 150) main_bank)
   \<and> rnd (500 - 150) = Fin (500 - 150) \<and> rnd (2500 + 150) = Fin (2500 + 150)
   \<and> balance (store (snd (snd
        (transferFunds ''t1'' ''t2'' ''ACC100001'' ''ACC100002'' (dbl 150) main_bank))) 1)
       = Fin 350
   \<and> balance (store (snd (snd
        (transferFunds ''t1'' ''t2'' ''ACC100001'' ''ACC100002'' (dbl 150) main_bank))) 2)
       = Fin 2650"
proof -
  have ne: "(1::nat) \<noteq> 2" by simp
  have r: "rnd (500 - 150) = Fin (500 - 150)" "rnd (2500 + 150) = Fin (2500 + 150)"
    "rnd 700 = Fin 700"
    by (simp_all add: rnd_eval)
  have ok: "fst (transferFunds ''t1'' ''t2'' ''ACC100001'' ''ACC100002'' (dbl 150) main_bank)"
    by (simp add: transferFunds_success_iff main_bank_accounts main_bank_store withdraw_def
        CheckingAccount_withdraw_def Let_def dbl_vals r)
  from C9_transfer_moves_amount [OF main_bank_accounts(2) main_bank_accounts(3) ne ok refl] ok r
  show ?thesis
    by (simp add: main_bank_accounts main_bank_store dbl_vals dsub_def rnd_eval)
qed

text \<open>
  C5, as the specification states it: a successful \<^verbatim>\<open>transferFunds\<close> returns both
  resulting balances. The function returns a \<^verbatim>\<open>bool\<close>, and a \<^verbatim>\<open>bool\<close> carries no
  balance: from the bank of \<^verbatim>\<open>main\<close>, a transfer of 150 and a transfer of 100 between the
  same two accounts return the same value, \<open>True\<close>, and leave different balances.
\<close>

theorem C5_return_value_counterexample:
  "fst (transferFunds ''t1'' ''t2'' ''ACC100001'' ''ACC100002'' (dbl 150) main_bank) = True
   \<and> fst (transferFunds ''t1'' ''t2'' ''ACC100001'' ''ACC100002'' (dbl 100) main_bank) = True
   \<and> balance (store (snd (snd
        (transferFunds ''t1'' ''t2'' ''ACC100001'' ''ACC100002'' (dbl 150) main_bank))) 1)
       = Fin 350
   \<and> balance (store (snd (snd
        (transferFunds ''t1'' ''t2'' ''ACC100001'' ''ACC100002'' (dbl 100) main_bank))) 1)
       = Fin 400
   \<and> balance (store (snd (snd
        (transferFunds ''t1'' ''t2'' ''ACC100001'' ''ACC100002'' (dbl 150) main_bank))) 2)
       = Fin 2650
   \<and> balance (store (snd (snd
        (transferFunds ''t1'' ''t2'' ''ACC100001'' ''ACC100002'' (dbl 100) main_bank))) 2)
       = Fin 2600"
proof -
  have ne: "''ACC100001'' \<noteq> ''ACC100002''" by simp
  have w1: "fst (withdraw ''t1'' (Fin 150) (store main_bank 1))"
    and w2: "fst (withdraw ''t1'' (Fin 100) (store main_bank 1))"
    by (simp_all add: main_bank_store withdraw_def CheckingAccount_withdraw_def Let_def
        rnd_eval)
  have p1: "\<not> dle (Fin 150) (Fin 0)" and p2: "\<not> dle (Fin 100) (Fin 0)"
    by simp_all
  note e1 = transferFunds_withdraw_accepted
    [OF main_bank_accounts(2) main_bank_accounts(3) ne p1 w1, of "''t2''"]
  note e2 = transferFunds_withdraw_accepted
    [OF main_bank_accounts(2) main_bank_accounts(3) ne p2 w2, of "''t2''"]
  show ?thesis
    by (simp add: dbl_vals e1 e2 main_bank_store withdraw_def CheckingAccount_withdraw_def
        deposit_def dsub_def Let_def rnd_eval)
qed

text \<open>
  C5, amended: when \<^verbatim>\<open>transferFunds\<close> succeeds (both numbers are registered, they resolve
  to distinct account objects, the amount is positive and the policy of the source permits
  the withdrawal) it returns \<open>true\<close> and nothing else. The two resulting balances are not
  returned: they are left in the two objects, the source as \<^verbatim>\<open>withdraw\<close> left it and the
  destination as \<^verbatim>\<open>deposit\<close> left it, where \<^verbatim>\<open>getBalance\<close> reads them; each is also the
  new balance recorded in the transaction that the call appended.
\<close>

theorem C5_transfer_returns_true:
  assumes "accounts b f = Some pf" "accounts b t = Some pt" "pf \<noteq> pt" "dlt (Fin 0) amt"
    and "permitted (store b pf) amt"
    and "b' = snd (snd (transferFunds now1 now2 f t amt b))"
  shows "fst (transferFunds now1 now2 f t amt b) = True
       \<and> store b' pf = snd (snd (withdraw now1 amt (store b pf)))
       \<and> store b' pt = snd (snd (deposit now2 amt (store b pt)))
       \<and> getBalance (store b' pf) = newBalance (last (transactions (store b' pf)))
       \<and> getBalance (store b' pt) = newBalance (last (transactions (store b' pt)))"
proof -
  from assms(1-3) have ne: "f \<noteq> t" by auto
  from assms(4) have pos: "\<not> dle amt (Fin 0)" by (rule dlt_zero_not_dle)
  from pos assms(5) have w: "fst (withdraw now1 amt (store b pf))"
    using withdraw_rejected_iff [of now1 amt "store b pf"] by auto
  note eq = transferFunds_withdraw_accepted [OF assms(1,2) ne pos w, of now2]
  show ?thesis
    using assms(3) pos
    by (simp add: assms(6) eq getBalance_def withdraw_accepted [OF w] deposit_accepted
        mkTransaction_def)
qed

theorem C5_transfer_returns_true_witness:
  "accounts main_bank ''ACC100001'' = Some 1 \<and> accounts main_bank ''ACC100002'' = Some 2
   \<and> dlt (Fin 0) (dbl 150) \<and> permitted (store main_bank 1) (dbl 150)
   \<and> fst (transferFunds ''t1'' ''t2'' ''ACC100001'' ''ACC100002'' (dbl 150) main_bank) = True
   \<and> getBalance (store (snd (snd
        (transferFunds ''t1'' ''t2'' ''ACC100001'' ''ACC100002'' (dbl 150) main_bank))) 1)
       = Fin 350
   \<and> getBalance (store (snd (snd
        (transferFunds ''t1'' ''t2'' ''ACC100001'' ''ACC100002'' (dbl 150) main_bank))) 2)
       = Fin 2650"
proof -
  have ne: "(1::nat) \<noteq> 2" by simp
  have pos: "dlt (Fin 0) (dbl 150)" by (simp add: dbl_vals)
  have p: "permitted (store main_bank 1) (dbl 150)"
    by (simp add: permitted_def main_bank_store dbl_vals rnd_eval)
  from C5_transfer_returns_true
    [OF main_bank_accounts(2) main_bank_accounts(3) ne pos p refl, of "''t1''" "''t2''"] p pos
  show ?thesis
    by (simp add: main_bank_accounts main_bank_store getBalance_def withdraw_def
        CheckingAccount_withdraw_def deposit_def dsub_def Let_def dbl_vals rnd_eval)
qed

section \<open>Opening accounts\<close>



text \<open>
  C10: for a registered customer, \<^verbatim>\<open>createAccount\<close> with a type other than
  \<open>savings\<close> and \<open>checking\<close> returns the null pointer and registers nothing, but the
  account counter has advanced. In a state reachable from a new bank the number generated
  for the call is then registered nowhere and carried by no account object, and this stays
  so after every later sequence of calls: it is never the number of an account.
\<close>

theorem C10_unknown_type_consumes_number:
  assumes "customers b cid = Some c" and "ty \<noteq> ''savings''" and "ty \<noteq> ''checking''"
    and "b' = snd (snd (createAccount cid ty init rate odl b))"
  shows "fst (createAccount cid ty init rate odl b) = Inr None
       \<and> fst (snd (createAccount cid ty init rate odl b)) = [InvalidAccountType]
       \<and> accounts b' = accounts b \<and> customers b' = customers b
       \<and> store b' = store b \<and> next_ref b' = next_ref b
       \<and> nextAccountNumber b' = nextAccountNumber b + 1
       \<and> (reachable b \<longrightarrow>
            (\<forall>cs b''. run cs b' = Some b'' \<longrightarrow>
                \<not> registered b'' (''ACC'' @ to_string (nextAccountNumber b))
              \<and> (\<forall>p. p < next_ref b'' \<longrightarrow>
                    accountNumber (store b'' p) \<noteq> ''ACC'' @ to_string (nextAccountNumber b))))"
proof -
  from assms have r: "createAccount cid ty init rate odl b =
      (Inr None, [InvalidAccountType], b\<lparr>nextAccountNumber := nextAccountNumber b + 1\<rparr>)"
    by (simp add: createAccount_def getCustomer_def Let_def)
  with assms(4) have b': "b' = b\<lparr>nextAccountNumber := nextAccountNumber b + 1\<rparr>" by simp
  have never: "\<not> registered b'' (''ACC'' @ to_string (nextAccountNumber b))
              \<and> (\<forall>p. p < next_ref b'' \<longrightarrow>
                    accountNumber (store b'' p) \<noteq> ''ACC'' @ to_string (nextAccountNumber b))"
    if reach: "reachable b" and run: "run cs b' = Some b''" for cs b''
  proof -
    from reachable_bank_wf [OF reach] have wf: "bank_wf b" .
    from bank_wf_not_registered [OF wf]
    have "skipped (nextAccountNumber b) b'"
      by (simp add: skipped_def registered_def b')
    from skipped_run [OF this run]
    have n: "\<not> registered b'' (''ACC'' @ to_string (nextAccountNumber b))"
      by (simp add: skipped_def)
    from bank_wf_counter [OF wf] have "bank_wf b'" by (simp only: b')
    from bank_wf_run [OF this run]
    have "\<And>p. p < next_ref b'' \<Longrightarrow> accounts b'' (accountNumber (store b'' p)) = Some p"
      unfolding bank_wf_def by blast
    with n show ?thesis
      unfolding registered_def by fastforce
  qed
  from r b' never show ?thesis by simp
qed

theorem C10_unknown_type_consumes_number_witness:
  "customers main_bank ''C1000'' \<noteq> None \<and> reachable main_bank
   \<and> fst (createAccount ''C1000'' ''business'' (dbl 100) (dbl 0.01) (dbl 0) main_bank)
       = Inr None
   \<and> nextAccountNumber (snd (snd
        (createAccount ''C1000'' ''business'' (dbl 100) (dbl 0.01) (dbl 0) main_bank)))
       = 100005
   \<and> map_option (\<lambda>b. registered b ''ACC100004'')
        (run [CreateAccount ''C1000'' ''savings'' (dbl 100) (dbl 0.01) (dbl 0)]
           (snd (snd
             (createAccount ''C1000'' ''business'' (dbl 100) (dbl 0.01) (dbl 0) main_bank))))
       = Some False"
proof -
  have t1: "''business'' \<noteq> ''savings''" and t2: "''business'' \<noteq> ''checking''" by simp_all
  define amt where "amt = dbl 100"
  define rate where "rate = dbl 0.01"
  define odl where "odl = dbl 0"
  have rn: "run [CreateAccount ''C1000'' ''savings'' amt rate odl]
           (snd (snd (createAccount ''C1000'' ''business'' amt rate odl main_bank)))
       = Some (snd (snd (createAccount ''C1000'' ''savings'' amt rate odl
           (snd (snd (createAccount ''C1000'' ''business'' amt rate odl main_bank))))))"
    by simp
  from C10_unknown_type_consumes_number [OF main_bank_customers t1 t2 refl, of amt rate odl]
    main_bank_reachable rn
  show ?thesis
    unfolding amt_def [symmetric] rate_def [symmetric] odl_def [symmetric]
    by (simp add: main_bank_customers main_bank_counters to_string_vals
        del: run.simps exec.simps)
qed

section \<open>The overdraft invariant of checking accounts\<close>












end
